theory Spec2Isabelle
  imports Complex_Main
begin

section \<open>JavaScript values used by the importer and the matcher\<close>

text \<open>
  A JavaScript string is a sequence of UTF-16 code units. The model is a \<^typ>\<open>string\<close>
  whose characters are the code units U+0000 to U+00FF (Latin-1); every character the
  patterns of the source mention lies in that range. A nullable string field of a JSON
  object is a \<^typ>\<open>string option\<close>, \<^term>\<open>None\<close> being \<^verbatim>\<open>null\<close>. Numbers are the
  reals they denote: rounding errors of IEEE doubles, \<^verbatim>\<open>NaN\<close> and overflow are outside
  the model, except where a function tests for \<^verbatim>\<open>NaN\<close> or \<^verbatim>\<open>Infinity\<close> itself.
\<close>

definition is_space :: "char \<Rightarrow> bool" where
  \<comment> \<open>the class \<^verbatim>\<open>\s\<close> and the characters \<^verbatim>\<open>trim\<close> strips, within Latin-1\<close>
  "is_space c = (of_char c \<in> {9, 10, 11, 12, 13, 32, 160 :: nat})"

definition is_digit :: "char \<Rightarrow> bool" where
  "is_digit c = (48 \<le> (of_char c :: nat) \<and> (of_char c :: nat) \<le> 57)"

definition is_upper :: "char \<Rightarrow> bool" where
  "is_upper c = (65 \<le> (of_char c :: nat) \<and> (of_char c :: nat) \<le> 90)"

definition is_lower :: "char \<Rightarrow> bool" where
  "is_lower c = (97 \<le> (of_char c :: nat) \<and> (of_char c :: nat) \<le> 122)"

definition toLowerCase :: "string \<Rightarrow> string" where
  \<comment> \<open>\<^verbatim>\<open>String.prototype.toLowerCase\<close> within Latin-1: A to Z, and U+00C0 to U+00DE but for the
      multiplication sign U+00D7, move up by 32; every other code unit stays\<close>
  "toLowerCase s =
     map (\<lambda>c. if is_upper c
                 \<or> (192 \<le> (of_char c :: nat) \<and> (of_char c :: nat) \<le> 222 \<and> (of_char c :: nat) \<noteq> 215)
               then char_of (of_char c + (32 :: nat)) else c) s"

definition upperCaseOf :: "char \<Rightarrow> string" where
  \<comment> \<open>what \<^verbatim>\<open>toUpperCase\<close> puts for one code unit of Latin-1: a to z, and U+00E0 to U+00FE but
      for the division sign U+00F7, move down by 32; the sharp s U+00DF becomes \<^verbatim>\<open>SS\<close>. The
      capitals of the micro sign U+00B5 and of U+00FF are U+039C and U+0178, beyond Latin-1:
      the two characters stand for their capitals here. No other character has these
      capitals and neither character is in a result otherwise, so two results are equal, or
      one is part of the other, exactly when they are in the source.\<close>
  "upperCaseOf c =
     (if is_lower c
         \<or> (224 \<le> (of_char c :: nat) \<and> (of_char c :: nat) \<le> 254 \<and> (of_char c :: nat) \<noteq> 247)
      then [char_of (of_char c - (32 :: nat))]
      else if (of_char c :: nat) = 223 then ''SS''
      else [c])"

definition toUpperCase :: "string \<Rightarrow> string" where
  "toUpperCase s = concat (map upperCaseOf s)"

definition trimStart :: "string \<Rightarrow> string" where
  "trimStart s = dropWhile is_space s"

definition trimEnd :: "string \<Rightarrow> string" where
  "trimEnd s = rev (dropWhile is_space (rev s))"

definition trim :: "string \<Rightarrow> string" where
  "trim s = trimEnd (trimStart s)"

fun startsWith :: "string \<Rightarrow> string \<Rightarrow> bool" where
  "startsWith s [] = True"
| "startsWith [] (p # ps) = False"
| "startsWith (c # cs) (p # ps) = (c = p \<and> startsWith cs ps)"

fun str_includes :: "string \<Rightarrow> string \<Rightarrow> bool" where
  "str_includes [] sub = (sub = [])"
| "str_includes (c # cs) sub = (startsWith (c # cs) sub \<or> str_includes cs sub)"

definition truthy :: "string option \<Rightarrow> bool" where
  \<comment> \<open>\<^verbatim>\<open>null\<close> and the empty string are falsy\<close>
  "truthy v = (case v of None \<Rightarrow> False | Some s \<Rightarrow> s \<noteq> [])"

definition js_or :: "string option \<Rightarrow> string option \<Rightarrow> string option" where
  \<comment> \<open>\<^verbatim>\<open>a || b\<close> on nullable strings\<close>
  "js_or a b = (if truthy a then a else b)"

definition or_null :: "string option \<Rightarrow> string option" where
  \<comment> \<open>\<^verbatim>\<open>a || null\<close>\<close>
  "or_null a = (if truthy a then a else None)"

definition template :: "string option \<Rightarrow> string" where
  \<comment> \<open>a nullable string inside a template literal\<close>
  "template v = (case v of None \<Rightarrow> ''null'' | Some s \<Rightarrow> s)"

definition js_round :: "real \<Rightarrow> int" where
  \<comment> \<open>\<^verbatim>\<open>Math.round\<close>: to the nearest integer, halves upwards\<close>
  "js_round x = \<lfloor>x + 1 / 2\<rfloor>"

section \<open>The operations index read by the matcher\<close>

record operation_fields =
  sequence :: "string option"
  title :: "string option"
  bookingDate :: "string option"
  executionDate :: "string option"
  valueDate :: "string option"
  amount :: "real option"
  currency :: "string option"
  direction :: "string option"
  communication :: "string option"
  bankReference :: "string option"
  orderReference :: "string option"
  counterpartyAccount :: "string option"
  counterpartyBic :: "string option"
  counterpartyName :: "string option"
  counterpartyAddress :: "string option"

record index_entry = operation_fields +
  statementId :: "string option"
  statementFile :: "string option"
  accountIban :: "string option"
  accountName :: "string option"
  statementYear :: "string option"
  statementNumber :: "string option"

text \<open>
  An invoice as the Invoice Ninja API delivers it: every field the matcher reads is a
  string or \<^verbatim>\<open>null\<close>, and \<^verbatim>\<open>amount\<close> and \<^verbatim>\<open>balance\<close> are a number, a string or
  \<^verbatim>\<open>null\<close>. On such values no step of \<^verbatim>\<open>findMatchesForInvoice\<close> can raise, and the
  function below is the value it returns. An invoice with an array or an object in one of
  these fields is outside the model.
\<close>

datatype json_number = Absent | NotNumeric | Numeric real

record client =
  display_name :: "string option"
  name :: "string option"

record invoice =
  inv_amount :: json_number
  inv_balance :: json_number
  invoice_date :: "string option"
  due_date :: "string option"
  invoice_number :: "string option"
  inv_number :: "string option"
  inv_client :: "client option"

record target =
  tvalue :: real
  tlabel :: string

record candidate =
  targetLabel :: string
  operation :: index_entry
  daysDiff :: "real option"
  refScore :: nat
  nameScore :: nat
  confidence :: int

datatype days = Days real | Infinity

section \<open>The invoice matcher\<close>

definition MAX_DATE_DIFF_DAYS :: "real option \<Rightarrow> real" where
  \<comment> \<open>the argument is the number in \<^verbatim>\<open>INVOICE_MATCH_MAX_DAYS\<close>, \<^term>\<open>None\<close> when it is unset or empty\<close>
  "MAX_DATE_DIFF_DAYS env = (case env of None \<Rightarrow> 120 | Some n \<Rightarrow> n)"

definition parseNumber :: "json_number \<Rightarrow> real option" where
  \<comment> \<open>\<^term>\<open>Absent\<close>: \<^verbatim>\<open>null\<close>, \<^verbatim>\<open>undefined\<close> or \<^verbatim>\<open>""\<close>; \<^term>\<open>NotNumeric\<close>: \<^verbatim>\<open>Number(value)\<close> is \<^verbatim>\<open>NaN\<close>\<close>
  "parseNumber v = (case v of Absent \<Rightarrow> None | NotNumeric \<Rightarrow> None | Numeric num \<Rightarrow> Some num)"

definition or_zero :: "real option \<Rightarrow> real" where
  \<comment> \<open>\<^verbatim>\<open>x || 0\<close> on a nullable number\<close>
  "or_zero v = (case v of None \<Rightarrow> 0 | Some x \<Rightarrow> x)"

definition roundCurrency :: "real \<Rightarrow> real" where
  "roundCurrency v = of_int (js_round (v * 100)) / 100"

definition sanitize :: "string option \<Rightarrow> string" where
  "sanitize str = trim (case str of None \<Rightarrow> [] | Some s \<Rightarrow> s)"

definition normalize :: "string option \<Rightarrow> string" where
  "normalize str = toUpperCase (filter (\<lambda>c. \<not> is_space c) (sanitize str))"

fun split_tokens :: "string \<Rightarrow> string \<Rightarrow> string list" where
  \<comment> \<open>the maximal runs of \<^verbatim>\<open>[a-z0-9]\<close>; the first argument is the run being read\<close>
  "split_tokens acc [] = (if acc = [] then [] else [acc])"
| "split_tokens acc (c # cs) =
     (if is_lower c \<or> is_digit c then split_tokens (acc @ [c]) cs
      else if acc = [] then split_tokens [] cs
      else acc # split_tokens [] cs)"

definition tokenize :: "string option \<Rightarrow> string list" where
  "tokenize str = split_tokens [] (toLowerCase (sanitize str))"

definition parseDate :: "(string \<Rightarrow> int option) \<Rightarrow> string option \<Rightarrow> int option" where
  \<comment> \<open>\<open>D s\<close> is \<^verbatim>\<open>new Date(s).getTime()\<close>, \<^term>\<open>None\<close> when that is \<^verbatim>\<open>NaN\<close>\<close>
  "parseDate D v = (case v of None \<Rightarrow> None | Some s \<Rightarrow> if s = [] then None else D s)"

definition diffDays :: "int option \<Rightarrow> int option \<Rightarrow> days" where
  "diffDays a b =
     (case a of None \<Rightarrow> Infinity
      | Some ta \<Rightarrow> (case b of None \<Rightarrow> Infinity
          | Some tb \<Rightarrow> Days \<bar>(of_int ta - of_int tb) / (24 * 60 * 60 * 1000)\<bar>))"

definition days_gt :: "days \<Rightarrow> real \<Rightarrow> bool" where
  \<comment> \<open>\<^verbatim>\<open>days > max\<close>; \<^verbatim>\<open>Infinity\<close> exceeds every number\<close>
  "days_gt d m = (case d of Infinity \<Rightarrow> True | Days x \<Rightarrow> x > m)"

definition loadOperations :: "index_entry list \<Rightarrow> index_entry list" where
  "loadOperations operations =
     map (\<lambda>operation. operation\<lparr>amount := Some (or_zero (amount operation)),
            bookingDate := or_null (js_or (bookingDate operation) (valueDate operation))\<rparr>)
       (filter (\<lambda>operation. toLowerCase (sanitize (direction operation)) = ''credit''
            \<and> amount operation \<noteq> None) operations)"

definition join_space :: "string list \<Rightarrow> string" where
  "join_space xs = (case xs of [] \<Rightarrow> [] | y # ys \<Rightarrow> y @ concat (map (\<lambda>s. '' '' @ s) ys))"

definition buildReferenceString :: "index_entry \<Rightarrow> string" where
  "buildReferenceString oper =
     normalize (Some (join_space (map the (filter truthy
       [communication oper, orderReference oper, bankReference oper]))))"

definition computeNameScore :: "string \<Rightarrow> string option \<Rightarrow> nat" where
  "computeNameScore invoiceClientName counterpartyName' =
     (if invoiceClientName = [] \<or> \<not> truthy counterpartyName' then 0
      else let invoiceTokens = set (tokenize (Some invoiceClientName));
               counterTokens = tokenize counterpartyName'
           in if tokenize (Some invoiceClientName) = [] \<or> counterTokens = [] then 0
              else length (filter (\<lambda>token. token \<in> invoiceTokens) counterTokens))"

definition scoreDate :: "real option \<Rightarrow> real \<Rightarrow> real" where
  \<comment> \<open>the first \<^verbatim>\<open>if\<close> statement of \<^verbatim>\<open>computeConfidence\<close>, applied to the running score\<close>
  "scoreDate daysDiff' score =
     (case daysDiff' of
        Some d \<Rightarrow>
          if d \<le> 2 then score + 30
          else if d \<le> 7 then score + 25
          else if d \<le> 14 then score + 22
          else if d \<le> 30 then score + 15
          else if d \<le> 60 then score + 10
          else if d \<le> 90 then score + 6
          else if d \<le> 120 then score + 4
          else score + 1 - min 10 (max 0 (d - 120) * (1 / 10))
      | None \<Rightarrow> score + 5)"

definition scoreReference :: "nat \<Rightarrow> real \<Rightarrow> real" where
  "scoreReference refScore' score =
     (if refScore' \<ge> 3 then score + 15
      else if refScore' = 2 then score + 12
      else if refScore' = 1 then score + 8
      else score)"

definition scoreName :: "nat \<Rightarrow> real \<Rightarrow> real" where
  "scoreName nameScore' score =
     (if nameScore' \<ge> 3 then score + 10
      else if nameScore' = 2 then score + 8
      else if nameScore' = 1 then score + 6
      else if nameScore' = 0 then score - 2
      else score)"

definition scoreTarget :: "string \<Rightarrow> real \<Rightarrow> real" where
  "scoreTarget targetLabel' score =
     (if targetLabel' \<noteq> [] \<and> str_includes (toLowerCase targetLabel') ''partial''
      then score - 5 else score)"

definition computeConfidence :: "real option \<Rightarrow> nat \<Rightarrow> nat \<Rightarrow> string \<Rightarrow> int" where
  \<comment> \<open>the running \<^verbatim>\<open>score\<close> starts at 50 and passes through the four statements in turn\<close>
  "computeConfidence daysDiff' refScore' nameScore' targetLabel' =
     (let score = scoreTarget targetLabel' (scoreName nameScore'
                    (scoreReference refScore' (scoreDate daysDiff' 50)))
      in max 10 (min 99 (js_round score)))"

definition operationKey :: "index_entry \<Rightarrow> string \<Rightarrow> string" where
  \<comment> \<open>the template literal of \<^verbatim>\<open>findMatchesForInvoice\<close>; the second argument is \<^verbatim>\<open>target.label\<close>\<close>
  "operationKey oper lbl =
     template (statementId oper) @ '':'' @
     template (js_or (js_or (sequence oper) (bankReference oper)) (bookingDate oper)) @ '':'' @
     lbl"

record invoice_context =
  invoiceDate :: "int option"
  invoiceNumber :: string
  invoiceNumberDigits :: string
  clientName :: string

definition visitOperation ::
  "(string \<Rightarrow> int option) \<Rightarrow> real \<Rightarrow> invoice_context \<Rightarrow> target \<Rightarrow>
   string set \<times> candidate list \<Rightarrow> index_entry \<Rightarrow> string set \<times> candidate list" where
  \<comment> \<open>the body of the inner \<^verbatim>\<open>forEach\<close>; the state is \<^verbatim>\<open>seenOperationIds\<close> and \<^verbatim>\<open>candidates\<close>\<close>
  "visitOperation D maxDays ctx tgt st oper =
     (let opAmount = roundCurrency (or_zero (amount oper)) in
      if \<bar>opAmount - tvalue tgt\<bar> > 1 / 1000 then st
      else if operationKey oper (tlabel tgt) \<in> fst st then st
      else let days = diffDays (invoiceDate ctx) (parseDate D (bookingDate oper)) in
        if days_gt days maxDays then st
        else let referenceString = buildReferenceString oper;
                 rs = (if invoiceNumberDigits ctx \<noteq> []
                          \<and> str_includes referenceString (invoiceNumberDigits ctx) then 3
                       else if invoiceNumber ctx \<noteq> []
                          \<and> str_includes referenceString (normalize (Some (invoiceNumber ctx))) then 2
                       else 0);
                 ns = computeNameScore (clientName ctx) (counterpartyName oper);
                 dd = (case days of Infinity \<Rightarrow> None | Days d \<Rightarrow> Some d)
             in (insert (operationKey oper (tlabel tgt)) (fst st),
                 snd st @ [\<lparr>targetLabel = tlabel tgt, operation = oper, daysDiff = dd,
                            refScore = rs, nameScore = ns,
                            confidence = computeConfidence dd rs ns (tlabel tgt)\<rparr>]))"

definition buildTargets :: "real \<Rightarrow> real \<Rightarrow> target list" where
  "buildTargets amt paidAmount =
     (if amt > 0 then [\<lparr>tvalue = roundCurrency amt, tlabel = ''invoice amount''\<rparr>] else []) @
     (if paidAmount > 1 / 100
      then [\<lparr>tvalue = roundCurrency paidAmount, tlabel = ''recorded partial payment''\<rparr>] else [])"

definition buildContext :: "(string \<Rightarrow> int option) \<Rightarrow> invoice \<Rightarrow> invoice_context" where
  "buildContext D invoice =
     (let num = sanitize (js_or (invoice_number invoice) (inv_number invoice)) in
      \<lparr>invoiceDate = (case parseDate D (invoice_date invoice) of
                         Some d \<Rightarrow> Some d | None \<Rightarrow> parseDate D (due_date invoice)),
       invoiceNumber = num,
       invoiceNumberDigits = (if num \<noteq> [] then filter is_digit num else []),
       clientName = (case inv_client invoice of None \<Rightarrow> []
          | Some c \<Rightarrow> (case js_or (display_name c) (name c) of None \<Rightarrow> [] | Some s \<Rightarrow> s))\<rparr>)"

definition collectCandidates ::
  "(string \<Rightarrow> int option) \<Rightarrow> real \<Rightarrow> invoice \<Rightarrow> index_entry list \<Rightarrow> candidate list" where
  \<comment> \<open>\<^verbatim>\<open>candidates\<close> after the two nested \<^verbatim>\<open>forEach\<close> loops, before sorting\<close>
  "collectCandidates D maxDays invoice operations =
     (let amt = or_zero (parseNumber (inv_amount invoice));
          balance = or_zero (parseNumber (inv_balance invoice));
          paidAmount = amt - balance
      in snd (foldl (\<lambda>st tgt. foldl (visitOperation D maxDays (buildContext D invoice) tgt) st operations)
                ({}, []) (buildTargets amt paidAmount)))"

definition dayKey :: "candidate \<Rightarrow> real" where
  \<comment> \<open>\<^verbatim>\<open>Number.MAX_SAFE_INTEGER\<close> for a missing day difference\<close>
  "dayKey c = (case daysDiff c of None \<Rightarrow> 9007199254740991 | Some d \<Rightarrow> d)"

definition compareCandidates :: "candidate \<Rightarrow> candidate \<Rightarrow> real" where
  "compareCandidates a b =
     (if dayKey a \<noteq> dayKey b then dayKey a - dayKey b
      else if refScore a \<noteq> refScore b then real (refScore b) - real (refScore a)
      else if nameScore a \<noteq> nameScore b then real (nameScore b) - real (nameScore a)
      else 0)"

fun insertCandidate :: "candidate \<Rightarrow> candidate list \<Rightarrow> candidate list" where
  "insertCandidate x [] = [x]"
| "insertCandidate x (y # ys) =
     (if compareCandidates x y \<le> 0 then x # y # ys else y # insertCandidate x ys)"

definition sortCandidates :: "candidate list \<Rightarrow> candidate list" where
  \<comment> \<open>\<^verbatim>\<open>Array.prototype.sort\<close> is stable; so is insertion from the right\<close>
  "sortCandidates xs = foldr insertCandidate xs []"

definition findMatchesForInvoice ::
  "(string \<Rightarrow> int option) \<Rightarrow> real \<Rightarrow> invoice \<Rightarrow> index_entry list \<Rightarrow> candidate list" where
  "findMatchesForInvoice D maxDays invoice operations =
     take 5 (sortCandidates (collectCandidates D maxDays invoice operations))"

section \<open>The statement importer: dates and amounts\<close>

definition is_line_terminator :: "char \<Rightarrow> bool" where
  \<comment> \<open>what \<^verbatim>\<open>.\<close> does not match, within Latin-1\<close>
  "is_line_terminator c = (of_char c \<in> {10, 13 :: nat})"

definition is_amount_char :: "char \<Rightarrow> bool" where
  \<comment> \<open>the class \<^verbatim>\<open>[\d.,]\<close>\<close>
  "is_amount_char c = (is_digit c \<or> c = CHR ''.'' \<or> c = CHR '','')"

definition digits_value :: "string \<Rightarrow> nat" where
  \<comment> \<open>the number a string of decimal digits denotes\<close>
  "digits_value ds = foldl (\<lambda>n c. 10 * n + (of_char c - 48)) 0 ds"

function show_nat :: "nat \<Rightarrow> string" where
  "show_nat n = (if n < 10 then [''0123456789'' ! n]
                 else show_nat (n div 10) @ [''0123456789'' ! (n mod 10)])"
  by pat_completeness auto
termination
  by (relation "measure id") auto

declare show_nat.simps [simp del]

definition show_number :: "int option \<Rightarrow> string" where
  \<comment> \<open>an integer inside a template literal; \<^term>\<open>None\<close> is \<^verbatim>\<open>NaN\<close>\<close>
  "show_number v =
     (case v of None \<Rightarrow> ''NaN''
      | Some i \<Rightarrow> if i < 0 then CHR ''-'' # show_nat (nat (- i)) else show_nat (nat i))"

definition parseInt :: "string \<Rightarrow> int option" where
  \<comment> \<open>\<^verbatim>\<open>parseInt(s, 10)\<close>: blanks, a sign, then the leading digits; \<^term>\<open>None\<close> is \<^verbatim>\<open>NaN\<close>\<close>
  "parseInt s =
     (let t = dropWhile is_space s;
          negative = startsWith t ''-'';
          u = (if startsWith t ''-'' \<or> startsWith t ''+'' then drop 1 t else t);
          ds = takeWhile is_digit u
      in if ds = [] then None
         else Some (if negative then - int (digits_value ds) else int (digits_value ds)))"

definition parseFloat :: "string \<Rightarrow> real option" where
  \<comment> \<open>blanks, a sign, digits and a fraction; \<^term>\<open>None\<close> is \<^verbatim>\<open>NaN\<close>. Exponents and
      \<^verbatim>\<open>Infinity\<close> are left out: the importer calls it on digits, dots and commas only.\<close>
  "parseFloat s =
     (let t = dropWhile is_space s;
          negative = startsWith t ''-'';
          u = (if startsWith t ''-'' \<or> startsWith t ''+'' then drop 1 t else t);
          ip = takeWhile is_digit u;
          r = dropWhile is_digit u;
          fp = (if startsWith r ''.'' then takeWhile is_digit (drop 1 r) else [])
      in if ip = [] \<and> fp = [] then None
         else let v = real (digits_value ip) + real (digits_value fp) / 10 ^ length fp
              in Some (if negative then - v else v))"

fun split_on :: "char \<Rightarrow> string \<Rightarrow> string list" where
  \<comment> \<open>\<^verbatim>\<open>s.split(sep)\<close> for a separator of one character\<close>
  "split_on sep [] = [[]]"
| "split_on sep (c # cs) =
     (if c = sep then [] # split_on sep cs
      else (case split_on sep cs of [] \<Rightarrow> [[c]] | p # ps \<Rightarrow> (c # p) # ps))"

fun replace_first :: "char \<Rightarrow> char \<Rightarrow> string \<Rightarrow> string" where
  \<comment> \<open>\<^verbatim>\<open>s.replace(a, b)\<close> for single characters: the first occurrence only\<close>
  "replace_first a b [] = []"
| "replace_first a b (c # cs) = (if c = a then b # cs else c # replace_first a b cs)"

definition nth_opt :: "'a list \<Rightarrow> nat \<Rightarrow> 'a option" where
  \<comment> \<open>an array read; out of range is \<^verbatim>\<open>undefined\<close>\<close>
  "nth_opt xs i = (if i < length xs then Some (xs ! i) else None)"

definition matchIsoDate :: "string \<Rightarrow> (string \<times> string \<times> string) option" where
  \<comment> \<open>\<^verbatim>\<open>ISO_DATE_REGEX = /^(\d{2})-(\d{2})-(\d{4})$/\<close>: day, month, year\<close>
  "matchIsoDate s =
     (if length s = 10 \<and> list_all is_digit (take 2 s) \<and> startsWith (drop 2 s) ''-''
         \<and> list_all is_digit (take 2 (drop 3 s)) \<and> startsWith (drop 5 s) ''-''
         \<and> list_all is_digit (drop 6 s)
      then Some (take 2 s, take 2 (drop 3 s), drop 6 s) else None)"

definition matchValueLine ::
  "string \<Rightarrow> (string \<times> string \<times> string option \<times> string \<times> string) option" where
  \<comment> \<open>\<^verbatim>\<open>VALUE_LINE_REGEX = /^(\d{2})-(\d{2})(?:-(\d{4}))?\s+([\d.,]+)\s*([+-])$/\<close>:
      day, month, year if present, amount, sign. The classes of neighbouring parts are
      disjoint, so the greedy reading is the only one.\<close>
  "matchValueLine line =
     (let day = take 2 line;
          r1 = drop 2 line;
          month = take 2 (drop 1 r1);
          r2 = drop 3 r1;
          hasYear = (startsWith r2 ''-'' \<and> length (take 4 (drop 1 r2)) = 4
                     \<and> list_all is_digit (take 4 (drop 1 r2)));
          yearMaybe = (if hasYear then Some (take 4 (drop 1 r2)) else None);
          r3 = (if hasYear then drop 5 r2 else r2);
          r4 = dropWhile is_space r3;
          amountString = takeWhile is_amount_char r4;
          r5 = dropWhile is_amount_char r4;
          sign = dropWhile is_space r5
      in if length day = 2 \<and> list_all is_digit day \<and> startsWith r1 ''-''
            \<and> length month = 2 \<and> list_all is_digit month
            \<and> (case r3 of [] \<Rightarrow> False | c # _ \<Rightarrow> is_space c)
            \<and> amountString \<noteq> [] \<and> (sign = ''+'' \<or> sign = ''-'')
         then Some (day, month, yearMaybe, amountString, sign) else None)"

definition toIsoDate :: "string \<Rightarrow> string option" where
  "toIsoDate dateString =
     (if dateString = [] then None
      else (case matchIsoDate dateString of None \<Rightarrow> None
            | Some (day, month, year) \<Rightarrow> Some (year @ ''-'' @ month @ ''-'' @ day)))"

definition inferValueDate ::
  "string \<Rightarrow> string \<Rightarrow> string option \<Rightarrow> string option \<Rightarrow> string option" where
  \<comment> \<open>arguments: day, month, yearMaybe, bookingDate\<close>
  "inferValueDate day month yearMaybe bookingDate' =
     (if truthy yearMaybe then Some (template yearMaybe @ ''-'' @ month @ ''-'' @ day)
      else if truthy bookingDate' then
        let parts = map parseInt (split_on CHR ''-'' (template bookingDate'));
            bookingYear = (case nth_opt parts 0 of None \<Rightarrow> None | Some y \<Rightarrow> y);
            bookingMonth = (case nth_opt parts 1 of None \<Rightarrow> None | Some m \<Rightarrow> m);
            valueMonth = parseInt month;
            monthDelta = (case (valueMonth, bookingMonth) of
                            (Some v, Some b) \<Rightarrow> Some (v - b) | _ \<Rightarrow> None);
            year = (case monthDelta of
                      None \<Rightarrow> bookingYear
                    | Some delta \<Rightarrow>
                        if delta < - 6 then map_option (\<lambda>y. y + 1) bookingYear
                        else if delta > 6 then map_option (\<lambda>y. y - 1) bookingYear
                        else bookingYear)
        in Some (show_number year @ ''-'' @ month @ ''-'' @ day)
      else None)"

definition parseEuropeanNumber :: "string \<Rightarrow> real" where
  "parseEuropeanNumber raw =
     (if raw = [] then 0
      else let normalized = replace_first CHR '','' CHR ''.''
                 (filter (\<lambda>c. \<not> is_space c) (filter (\<lambda>c. c \<noteq> CHR ''.'') raw))
           in (case parseFloat normalized of None \<Rightarrow> 0 | Some parsed \<Rightarrow> parsed))"

record value_info =
  v_valueDate :: "string option"
  v_amount :: "real option"
  v_currency :: "string option"
  v_direction :: "string option"

definition parseValueLine :: "string option \<Rightarrow> string option \<Rightarrow> string option \<Rightarrow> value_info" where
  \<comment> \<open>arguments: line, bookingDate, currency\<close>
  "parseValueLine line bookingDate' currency' =
     (if \<not> truthy line
      then \<lparr>v_valueDate = or_null bookingDate', v_amount = None, v_currency = currency',
            v_direction = None\<rparr>
      else (case matchValueLine (template line) of
          None \<Rightarrow> \<lparr>v_valueDate = or_null bookingDate', v_amount = None, v_currency = currency',
                    v_direction = None\<rparr>
        | Some (day, month, yearMaybe, amountString, sign) \<Rightarrow>
            let inferredDate = inferValueDate day month yearMaybe bookingDate';
                numericAmount = parseEuropeanNumber amountString;
                signedAmount = (if sign = ''-'' then - numericAmount else numericAmount)
            in \<lparr>v_valueDate = inferredDate, v_amount = Some signedAmount, v_currency = currency',
                v_direction = (if sign = ''-'' then Some ''debit'' else Some ''credit'')\<rparr>))"

section \<open>The statement importer: operations\<close>

text \<open>
  The labels the importer looks for. The letters with accents and the degree sign are the
  Latin-1 code units U+00E9, U+00F4 and U+00B0.
\<close>

definition IBAN_MIN_LENGTH :: nat where
  "IBAN_MIN_LENGTH = 14"

definition LABEL_EXECUTION_DATE :: string where
  \<comment> \<open>\<^verbatim>\<open>Date d'execution\<close>, with its accent\<close>
  "LABEL_EXECUTION_DATE = ''Date d'' @ [CHR 0x27] @ ''ex'' @ [CHR 0xE9] @ ''cution''"

definition LABEL_OPERATION_DATE :: string where
  \<comment> \<open>\<^verbatim>\<open>Date de l'operation\<close>\<close>
  "LABEL_OPERATION_DATE = ''Date de l'' @ [CHR 0x27] @ ''op'' @ [CHR 0xE9] @ ''ration''"

definition LABEL_BANK_REFERENCE :: string where
  \<comment> \<open>\<^verbatim>\<open>Reference banque\<close>\<close>
  "LABEL_BANK_REFERENCE = ''R'' @ [CHR 0xE9] @ ''f'' @ [CHR 0xE9] @ ''rence banque''"

definition LABEL_ORDER_REFERENCE :: string where
  \<comment> \<open>\<^verbatim>\<open>Reference donneur d'ordre\<close>\<close>
  "LABEL_ORDER_REFERENCE =
     ''R'' @ [CHR 0xE9] @ ''f'' @ [CHR 0xE9] @ ''rence donneur d'' @ [CHR 0x27] @ ''ordre''"

definition LABEL_DEPOSITS :: string where
  \<comment> \<open>\<^verbatim>\<open>Les depots \<close>, with its blank\<close>
  "LABEL_DEPOSITS = ''Les d'' @ [CHR 0xE9] @ ''p'' @ [CHR 0xF4] @ ''ts ''"

definition LABEL_OPERATIONS_HEADER :: string where
  \<comment> \<open>\<^verbatim>\<open>N. Type d'operation\<close>, the first word ending in a degree sign\<close>
  "LABEL_OPERATIONS_HEADER =
     ''N'' @ [CHR 0xB0] @ '' Type d'' @ [CHR 0x27] @ ''op'' @ [CHR 0xE9] @ ''ration''"

definition LABEL_TITLE :: string where
  \<comment> \<open>\<^verbatim>\<open>Extrait N.\<close>\<close>
  "LABEL_TITLE = ''Extrait N'' @ [CHR 0xB0]"

definition LABEL_OPENING_BALANCE :: string where
  \<comment> \<open>\<^verbatim>\<open>Solde precedent au \<close>\<close>
  "LABEL_OPENING_BALANCE = ''Solde pr'' @ [CHR 0xE9] @ ''c'' @ [CHR 0xE9] @ ''dent au ''"

fun split_blank :: "bool \<Rightarrow> string \<Rightarrow> string \<Rightarrow> string list" where
  \<comment> \<open>\<^verbatim>\<open>s.split(/\s+/)\<close>: the flag says that the last character read was a blank, the
      second argument is the piece being read\<close>
  "split_blank after_blank piece [] = [piece]"
| "split_blank after_blank piece (c # cs) =
     (if is_space c then (if after_blank then split_blank True piece cs
                          else piece # split_blank True [] cs)
      else split_blank False (piece @ [c]) cs)"

definition split_ws :: "string \<Rightarrow> string list" where
  "split_ws s = split_blank False [] s"

definition matchCurrency :: "string \<Rightarrow> bool" where
  \<comment> \<open>\<^verbatim>\<open>/^[A-Z]{3}$/\<close>\<close>
  "matchCurrency s = (length s = 3 \<and> list_all is_upper s)"

definition matchBic :: "string \<Rightarrow> bool" where
  \<comment> \<open>\<^verbatim>\<open>BIC_REGEX = /^([A-Z]{4}[A-Z0-9]{2}[A-Z0-9]{2,3})$/\<close>\<close>
  "matchBic s = ((length s = 8 \<or> length s = 9) \<and> list_all is_upper (take 4 s)
                 \<and> list_all (\<lambda>c. is_upper c \<or> is_digit c) (drop 4 s))"

definition matchIbanShape :: "string \<Rightarrow> bool" where
  \<comment> \<open>\<^verbatim>\<open>/^[A-Z]{2}\d{2}[A-Z0-9]+$/\<close>\<close>
  "matchIbanShape s = (length s \<ge> 5 \<and> list_all is_upper (take 2 s)
                       \<and> list_all is_digit (take 2 (drop 2 s))
                       \<and> list_all (\<lambda>c. is_upper c \<or> is_digit c) (drop 4 s))"

definition matchOperationLine :: "string \<Rightarrow> (string \<times> string) option" where
  \<comment> \<open>\<^verbatim>\<open>/^(0\d{3})\s+(.+)$/\<close>: sequence and title. When only blanks follow the sequence the
      pattern gives the last of them back as the title.\<close>
  "matchOperationLine line =
     (let sequence' = take 4 line;
          blanks = takeWhile is_space (drop 4 line);
          title' = dropWhile is_space (drop 4 line)
      in if length sequence' = 4 \<and> startsWith sequence' ''0'' \<and> list_all is_digit sequence'
            \<and> blanks \<noteq> []
         then (if title' \<noteq> []
               then (if list_ex is_line_terminator title' then None else Some (sequence', title'))
               else (if length blanks \<ge> 2 \<and> \<not> is_line_terminator (last blanks)
                     then Some (sequence', [last blanks]) else None))
         else None)"

definition parseIbanLine :: "string \<Rightarrow> (string \<times> string option) option" where
  \<comment> \<open>the result is the IBAN and the currency\<close>
  "parseIbanLine line =
     (let compact = filter (\<lambda>c. \<not> is_space c) line in
      if length compact < IBAN_MIN_LENGTH then None
      else if \<not> matchIbanShape compact then None
      else let matches = split_ws (trim line) in
        if matches = [] then None
        else let currencyCandidate = last matches in
          if matchCurrency currencyCandidate
          then Some (take (length compact - length currencyCandidate) compact, Some currencyCandidate)
          else Some (compact, None))"

fun scanValue :: "string list \<Rightarrow> (string \<times> string list) option" where
  \<comment> \<open>the \<^verbatim>\<open>for\<close> loop of \<^verbatim>\<open>consumeValue\<close> over the lines after the label: the value
      found and the lines after it\<close>
  "scanValue [] = None"
| "scanValue (candidate # rest) =
     (if candidate = [] then scanValue rest
      else if CHR '':'' \<in> set candidate then None
      else Some (trim candidate, rest))"

definition consumeValue :: "string \<Rightarrow> string list \<Rightarrow> string \<times> string list" where
  \<comment> \<open>arguments: the line at \<^verbatim>\<open>startIndex\<close> and the lines after it; result: the value and
      the lines after \<^verbatim>\<open>nextIndex\<close>\<close>
  "consumeValue line rest =
     (let v = (case dropWhile (\<lambda>c. c \<noteq> CHR '':'') line of [] \<Rightarrow> [] | _ # after \<Rightarrow> trim after) in
      if v = [] then (case scanValue rest of None \<Rightarrow> ([], rest) | Some found \<Rightarrow> found)
      else (v, rest))"

lemma scanValue_length: "scanValue ls = Some (v, rest) \<Longrightarrow> length rest < length ls"
  by (induction ls) (auto split: if_splits)

lemma consumeValue_length [termination_simp]: "length (snd (consumeValue line rest)) \<le> length rest"
  by (auto simp: consumeValue_def Let_def split: option.splits list.splits dest: scanValue_length
      intro: less_imp_le)

record detail_info =
  d_executionDate :: "string option"
  d_communication :: "string option"
  d_bankReference :: "string option"
  d_orderReference :: "string option"
  d_counterpartyAccount :: "string option"
  d_counterpartyCurrency :: "string option"
  d_counterpartyBic :: "string option"
  d_counterpartyName :: "string option"
  d_counterpartyAddress :: "string option"
  d_additionalDetails :: "string list"

definition textOr :: "string \<Rightarrow> string option \<Rightarrow> string option" where
  \<comment> \<open>\<^verbatim>\<open>value || previous\<close> for a string value\<close>
  "textOr v previous = (if v \<noteq> [] then Some v else previous)"

function classifyLines ::
  "detail_info \<Rightarrow> string list \<Rightarrow> string list \<Rightarrow> detail_info \<times> string list" where
  \<comment> \<open>the \<^verbatim>\<open>for\<close> loop of \<^verbatim>\<open>parseDetailLines\<close>: \<^verbatim>\<open>details\<close>, \<^verbatim>\<open>residual\<close> and the lines left\<close>
  "classifyLines details residual [] = (details, residual)"
| "classifyLines details residual (line # rest) =
     (if startsWith line LABEL_EXECUTION_DATE \<or> startsWith line LABEL_OPERATION_DATE
      then classifyLines (details\<lparr>d_executionDate := toIsoDate (fst (consumeValue line rest))\<rparr>)
             residual (snd (consumeValue line rest))
      else if startsWith line ''Communication''
      then classifyLines (details\<lparr>d_communication :=
                textOr (fst (consumeValue line rest)) (d_communication details)\<rparr>)
             residual (snd (consumeValue line rest))
      else if startsWith line LABEL_BANK_REFERENCE
      then classifyLines (details\<lparr>d_bankReference :=
                textOr (fst (consumeValue line rest)) (d_bankReference details)\<rparr>)
             residual (snd (consumeValue line rest))
      else if startsWith line LABEL_ORDER_REFERENCE
      then classifyLines (details\<lparr>d_orderReference :=
                textOr (fst (consumeValue line rest)) (d_orderReference details)\<rparr>)
             residual (snd (consumeValue line rest))
      else (case parseIbanLine line of
          Some (iban, cur) \<Rightarrow>
            classifyLines (details\<lparr>d_counterpartyAccount := Some iban,
                d_counterpartyCurrency := js_or cur (d_counterpartyCurrency details)\<rparr>) residual rest
        | None \<Rightarrow>
            if matchBic (filter (\<lambda>c. \<not> is_space c) line)
            then classifyLines (details\<lparr>d_counterpartyBic := Some (filter (\<lambda>c. \<not> is_space c) line)\<rparr>)
                   residual rest
            else classifyLines details (residual @ [line]) rest))"
  by pat_completeness auto
termination
  by (relation "measure (\<lambda>(details, residual, ls). length ls)")
     (auto simp: le_imp_less_Suc consumeValue_length)

definition parseDetailLines :: "string list \<Rightarrow> detail_info" where
  "parseDetailLines ls =
     (let start = \<lparr>d_executionDate = None, d_communication = None, d_bankReference = None,
            d_orderReference = None, d_counterpartyAccount = None, d_counterpartyCurrency = None,
            d_counterpartyBic = None, d_counterpartyName = None, d_counterpartyAddress = None,
            d_additionalDetails = []\<rparr>;
          details = fst (classifyLines start [] ls);
          residual = snd (classifyLines start [] ls)
      in (case residual of
            [] \<Rightarrow> details
          | n # [] \<Rightarrow> details\<lparr>d_counterpartyName := Some n\<rparr>
          | n # a # others \<Rightarrow> details\<lparr>d_counterpartyName := Some n, d_counterpartyAddress := Some a,
                d_additionalDetails := d_additionalDetails details @ others\<rparr>))"

record parsed_operation = operation_fields +
  counterpartyCurrency :: "string option"
  additionalDetails :: "string list"
  rawDetailLines :: "string list"
  rawValueLine :: "string option"

definition buildOperation ::
  "string \<Rightarrow> string \<Rightarrow> string option \<Rightarrow> string option \<Rightarrow> string list \<Rightarrow> string option \<Rightarrow>
   parsed_operation" where
  \<comment> \<open>arguments: sequence, title, bookingDate, valueLine, detailLines, currency; the
      \<^verbatim>\<open>rawDetails\<close> that \<^verbatim>\<open>extractOperations\<close> adds are the last two fields\<close>
  "buildOperation sequence' title' bookingDate' valueLine detailLines currency' =
     (let detailInfo = parseDetailLines detailLines;
          valueInfo = parseValueLine valueLine bookingDate' currency'
      in \<lparr>sequence = Some sequence', title = Some title',
          bookingDate = or_null (js_or bookingDate' (v_valueDate valueInfo)),
          executionDate = d_executionDate detailInfo,
          valueDate = v_valueDate valueInfo,
          amount = v_amount valueInfo,
          currency = v_currency valueInfo,
          direction = v_direction valueInfo,
          communication = d_communication detailInfo,
          bankReference = d_bankReference detailInfo,
          orderReference = d_orderReference detailInfo,
          counterpartyAccount = d_counterpartyAccount detailInfo,
          counterpartyBic = d_counterpartyBic detailInfo,
          counterpartyName = d_counterpartyName detailInfo,
          counterpartyAddress = d_counterpartyAddress detailInfo,
          counterpartyCurrency = d_counterpartyCurrency detailInfo,
          additionalDetails = d_additionalDetails detailInfo,
          rawDetailLines = detailLines,
          rawValueLine = valueLine\<rparr>)"

section \<open>The statement importer: the cursor over the lines\<close>

record detail_block =
  detailLines :: "string list"
  valueLine :: "string option"
  blockBookingDate :: "string option"
  remaining :: "string list"

fun detailLoop :: "string option \<Rightarrow> string list \<Rightarrow> string list \<Rightarrow> detail_block" where
  \<comment> \<open>the inner \<^verbatim>\<open>while\<close> of \<^verbatim>\<open>extractOperations\<close>: arguments \<^verbatim>\<open>currentBookingDate\<close>,
      \<^verbatim>\<open>detailLines\<close> and the lines from \<^verbatim>\<open>index\<close> on\<close>
  "detailLoop bd details [] =
     \<lparr>detailLines = details, valueLine = None, blockBookingDate = bd, remaining = []\<rparr>"
| "detailLoop bd details (detailLine # rest) =
     (if detailLine = [] then detailLoop bd details rest
      else if startsWith detailLine ''Solde '' \<or> startsWith detailLine ''-- ''
      then \<lparr>detailLines = details, valueLine = None, blockBookingDate = bd,
             remaining = detailLine # rest\<rparr>
      else if startsWith detailLine ''...'' then detailLoop bd details rest
      else if matchIsoDate detailLine \<noteq> None then detailLoop (toIsoDate detailLine) details rest
      else if matchValueLine detailLine \<noteq> None
      then \<lparr>detailLines = details, valueLine = Some detailLine, blockBookingDate = bd,
             remaining = rest\<rparr>
      else if matchOperationLine detailLine \<noteq> None
      then \<lparr>detailLines = details, valueLine = None, blockBookingDate = bd,
             remaining = detailLine # rest\<rparr>
      else detailLoop bd (details @ [detailLine]) rest)"

fun fallbackLoop :: "string list \<Rightarrow> string option \<times> string list" where
  \<comment> \<open>the \<^verbatim>\<open>while\<close> that runs when the inner loop found no value line\<close>
  "fallbackLoop [] = (None, [])"
| "fallbackLoop (fallbackLine # rest) =
     (if fallbackLine = [] then fallbackLoop rest
      else if matchValueLine fallbackLine \<noteq> None then (Some fallbackLine, rest)
      else (None, fallbackLine # rest))"

definition readBlock :: "string option \<Rightarrow> string list \<Rightarrow> detail_block" where
  \<comment> \<open>the inner loop followed by the fallback scan\<close>
  "readBlock bd ls =
     (let block = detailLoop bd [] ls in
      if \<not> truthy (valueLine block)
      then block\<lparr>valueLine := fst (fallbackLoop (remaining block)),
                 remaining := snd (fallbackLoop (remaining block))\<rparr>
      else block)"

lemma detailLoop_length: "length (remaining (detailLoop bd details ls)) \<le> length ls"
  by (induction ls arbitrary: bd details) (auto intro: le_SucI)

lemma fallbackLoop_length: "length (snd (fallbackLoop ls)) \<le> length ls"
  by (induction ls) (auto intro: le_SucI)

lemma readBlock_length: "length (remaining (readBlock bd ls)) \<le> length ls"
  using detailLoop_length [of bd "[]" ls] fallbackLoop_length [of "remaining (detailLoop bd [] ls)"]
  by (simp add: readBlock_def Let_def)

function operationLoop :: "string option \<Rightarrow> string option \<Rightarrow> string list \<Rightarrow> parsed_operation list" where
  \<comment> \<open>the outer \<^verbatim>\<open>while\<close>: arguments \<^verbatim>\<open>currentBookingDate\<close>, the account's currency and the
      lines from \<^verbatim>\<open>index\<close> on; the result is \<^verbatim>\<open>operations\<close>\<close>
  "operationLoop bd cur [] = []"
| "operationLoop bd cur (line # rest) =
     (if line = [] then operationLoop bd cur rest
      else if startsWith line ''Solde '' \<or> startsWith line LABEL_DEPOSITS \<or> startsWith line ''-- ''
      then []
      else if startsWith line ''...'' then operationLoop bd cur rest
      else if matchIsoDate line \<noteq> None then operationLoop (toIsoDate line) cur rest
      else (case matchOperationLine line of
          None \<Rightarrow> operationLoop bd cur rest
        | Some (sequence', title') \<Rightarrow>
            buildOperation sequence' title' (blockBookingDate (readBlock bd rest))
              (valueLine (readBlock bd rest)) (detailLines (readBlock bd rest)) cur
            # operationLoop (blockBookingDate (readBlock bd rest)) cur (remaining (readBlock bd rest))))"
  by pat_completeness auto
termination
  by (relation "measure (\<lambda>(bd, cur, ls). length ls)") (auto simp: le_imp_less_Suc readBlock_length)

section \<open>The statement importer: statement header\<close>

record account =
  account_name :: "string option"
  account_iban :: string
  account_currency :: "string option"
  account_bic :: "string option"

record balance =
  balance_date :: "string option"
  balance_amount :: "real option"

record balances =
  b_closing :: balance
  b_opening :: balance

record statement_meta =
  m_account :: account
  m_statementNumber :: "string option"
  m_statementYear :: "string option"
  m_balances :: balances
  operationsHeaderIndex :: "nat option"

fun findIndex :: "('a \<Rightarrow> bool) \<Rightarrow> 'a list \<Rightarrow> nat option" where
  \<comment> \<open>\<^term>\<open>None\<close> is the \<^verbatim>\<open>-1\<close> of \<^verbatim>\<open>Array.prototype.findIndex\<close>\<close>
  "findIndex P [] = None"
| "findIndex P (x # xs) = (if P x then Some 0 else map_option Suc (findIndex P xs))"

definition isPotentialIbanLine :: "string \<Rightarrow> bool" where
  "isPotentialIbanLine line =
     (length (take 4 line) = 4 \<and> list_all is_upper (take 2 line)
      \<and> list_all is_digit (take 2 (drop 2 line)) \<and> length line > IBAN_MIN_LENGTH)"

definition parseAccountLine :: "string \<Rightarrow> string + (string \<times> string option)" where
  \<comment> \<open>the result is the IBAN and the currency\<close>
  "parseAccountLine line =
     (let matches = split_ws (trim line) in
      if matches = [] then Inl ''Invalid account line in statement.''
      else let currencyCandidate = last matches;
               hasCurrency = matchCurrency currencyCandidate;
               ibanParts = concat (if hasCurrency then butlast matches else matches)
           in Inr (ibanParts, if hasCurrency then Some currencyCandidate else None))"

definition matchTitleAt :: "string \<Rightarrow> (string \<times> string) option" where
  \<comment> \<open>\<^verbatim>\<open>/Extrait N.\s+(\d{4})\s*-\s*(\d+)/\<close> tried at the start of a string: year and number\<close>
  "matchTitleAt s =
     (let r1 = drop (length LABEL_TITLE) s;
          r2 = dropWhile is_space r1;
          year = take 4 r2;
          r3 = dropWhile is_space (drop 4 r2);
          r4 = dropWhile is_space (drop 1 r3);
          num = takeWhile is_digit r4
      in if startsWith s LABEL_TITLE \<and> (case r1 of [] \<Rightarrow> False | c # _ \<Rightarrow> is_space c)
            \<and> length year = 4 \<and> list_all is_digit year \<and> startsWith r3 ''-'' \<and> num \<noteq> []
         then Some (year, num) else None)"

fun searchTitle :: "string \<Rightarrow> (string \<times> string) option" where
  \<comment> \<open>the leftmost match\<close>
  "searchTitle [] = None"
| "searchTitle (c # cs) =
     (case matchTitleAt (c # cs) of Some found \<Rightarrow> Some found | None \<Rightarrow> searchTitle cs)"

definition parseStatementTitle :: "string option \<Rightarrow> string option \<times> string option" where
  \<comment> \<open>the result is \<^verbatim>\<open>statementNumber\<close> and \<^verbatim>\<open>statementYear\<close>\<close>
  "parseStatementTitle line =
     (if \<not> truthy line then (None, None)
      else (case searchTitle (template line) of
              None \<Rightarrow> (None, None)
            | Some (year, num) \<Rightarrow> (Some num, Some year)))"

definition matchBalanceAt :: "string \<Rightarrow> (string \<times> string \<times> string) option" where
  \<comment> \<open>\<^verbatim>\<open>/au\s+(\d{2}-\d{2}-\d{4})\s+([\d.,]+)\s*([+-])/\<close> tried at the start of a string:
      date, amount and sign\<close>
  "matchBalanceAt s =
     (let r1 = drop 2 s;
          r2 = dropWhile is_space r1;
          datePart = take 10 r2;
          r3 = drop 10 r2;
          r4 = dropWhile is_space r3;
          amountPart = takeWhile is_amount_char r4;
          r5 = dropWhile is_space (dropWhile is_amount_char r4);
          sign = take 1 r5
      in if startsWith s ''au'' \<and> (case r1 of [] \<Rightarrow> False | c # _ \<Rightarrow> is_space c)
            \<and> matchIsoDate datePart \<noteq> None \<and> (case r3 of [] \<Rightarrow> False | c # _ \<Rightarrow> is_space c)
            \<and> amountPart \<noteq> [] \<and> (sign = ''+'' \<or> sign = ''-'')
         then Some (datePart, amountPart, sign) else None)"

fun searchBalance :: "string \<Rightarrow> (string \<times> string \<times> string) option" where
  "searchBalance [] = None"
| "searchBalance (c # cs) =
     (case matchBalanceAt (c # cs) of Some found \<Rightarrow> Some found | None \<Rightarrow> searchBalance cs)"

definition parseBalanceLine :: "string option \<Rightarrow> balance" where
  "parseBalanceLine line =
     (if \<not> truthy line then \<lparr>balance_date = None, balance_amount = None\<rparr>
      else (case searchBalance (template line) of
              None \<Rightarrow> \<lparr>balance_date = None, balance_amount = None\<rparr>
            | Some (datePart, amountPart, sign) \<Rightarrow>
                let numericAmount = parseEuropeanNumber amountPart;
                    signedAmount = (if sign = ''-'' then - numericAmount else numericAmount)
                in \<lparr>balance_date = toIsoDate datePart, balance_amount = Some signedAmount\<rparr>))"

definition extractStatementMeta :: "string list \<Rightarrow> string + statement_meta" where
  \<comment> \<open>\<^term>\<open>Inl\<close> carries the message of the \<^verbatim>\<open>Error\<close> thrown\<close>
  "extractStatementMeta ls =
     (case findIndex isPotentialIbanLine ls of
        None \<Rightarrow> Inl ''Unable to locate account IBAN line in statement.''
      | Some ibanIndex \<Rightarrow>
          let accountLine = ls ! ibanIndex;
              accountName' = (if ibanIndex = 0 then None else or_null (Some (ls ! (ibanIndex - 1))));
              bicLine = List.find (\<lambda>line. startsWith line ''BIC '') ls;
              statementTitleLine = List.find (\<lambda>line. str_includes line LABEL_TITLE) ls;
              closingBalanceLine = List.find (\<lambda>line. startsWith line ''Solde actuel au '') ls;
              openingBalanceLine = List.find (\<lambda>line. startsWith line LABEL_OPENING_BALANCE) ls
          in (case parseAccountLine accountLine of
                Inl message \<Rightarrow> Inl message
              | Inr (iban, cur) \<Rightarrow>
                  Inr \<lparr>m_account = \<lparr>account_name = accountName', account_iban = iban,
                          account_currency = cur,
                          account_bic = (case bicLine of None \<Rightarrow> None
                                         | Some l \<Rightarrow> Some (trim (drop 3 l)))\<rparr>,
                       m_statementNumber = fst (parseStatementTitle statementTitleLine),
                       m_statementYear = snd (parseStatementTitle statementTitleLine),
                       m_balances = \<lparr>b_closing = parseBalanceLine closingBalanceLine,
                                      b_opening = parseBalanceLine openingBalanceLine\<rparr>,
                       operationsHeaderIndex =
                         findIndex (\<lambda>line. startsWith line LABEL_OPERATIONS_HEADER) ls\<rparr>))"

definition extractOperations :: "string list \<Rightarrow> statement_meta \<Rightarrow> string + parsed_operation list" where
  "extractOperations ls statementMeta =
     (case operationsHeaderIndex statementMeta of
        None \<Rightarrow> Inl ''Unable to find the operations header in the statement.''
      | Some headerIndex \<Rightarrow>
          Inr (operationLoop None (account_currency (m_account statementMeta))
                 (dropWhile (\<lambda>line. line = ''Date'' \<or> startsWith line ''Valeur Montant'')
                    (drop (headerIndex + 1) ls))))"

section \<open>The statement importer: documents, files and the batch\<close>

text \<open>
  What lies outside the source is a parameter of the model: the text that the PDF library
  extracts from a buffer (or the message of the error it throws), the clock, and the files
  that exist under the output directory. Paths are joined with a slash and are not
  normalised.
\<close>

datatype pdf_buffer = Unreadable string | Text string

record clock_reading =
  iso :: string
  millis :: int

record source_info =
  source_type :: string
  originPath :: string
  entryName :: "string option"

record statement =
  s_statementId :: string
  s_generatedAt :: string
  s_source :: source_info
  s_account :: account
  s_balances :: balances
  s_statementNumber :: "string option"
  s_statementYear :: "string option"
  s_operations :: "parsed_operation list"
  s_rawStatementLines :: "string list"

record processed_statement = statement +
  outputPath :: string

record index_payload =
  index_generatedAt :: string
  index_operations :: "index_entry list"

datatype file_content = StatementFile statement | IndexFile index_payload

type_synonym world = "string \<Rightarrow> file_content option"

record import_options =
  outputDir :: string
  overwrite :: bool

record failure =
  f_source :: string
  f_path :: string
  f_entryName :: "string option"
  f_error :: string

record zip_entry =
  entry_name :: string
  isDirectory :: bool
  getData :: pdf_buffer

definition endsWith :: "string \<Rightarrow> string \<Rightarrow> bool" where
  "endsWith s suffix = startsWith (rev s) (rev suffix)"

definition basename :: "string \<Rightarrow> string \<Rightarrow> string" where
  \<comment> \<open>\<^verbatim>\<open>path.basename(p, ext)\<close> for paths written with slashes\<close>
  "basename p ext =
     (let trimmed = rev (dropWhile (\<lambda>c. c = CHR ''/'') (rev p));
          base = rev (takeWhile (\<lambda>c. c \<noteq> CHR ''/'') (rev trimmed))
      in if ext \<noteq> [] \<and> base \<noteq> ext \<and> endsWith base ext
         then take (length base - length ext) base else base)"

definition path_join :: "string \<Rightarrow> string \<Rightarrow> string" where
  \<comment> \<open>\<^verbatim>\<open>path.join(dir, file)\<close> for a directory and a file name that \<^verbatim>\<open>path.normalize\<close> leaves
      as they are\<close>
  "path_join dir file = dir @ ''/'' @ file"

definition padLeft :: "string \<Rightarrow> nat \<Rightarrow> string" where
  "padLeft v n = replicate (n - length v) CHR ''0'' @ v"

definition buildFileSafeName :: "string \<Rightarrow> string" where
  "buildFileSafeName v =
     map (\<lambda>c. if is_upper c \<or> is_lower c \<or> is_digit c \<or> c = CHR ''.'' \<or> c = CHR ''_'' \<or> c = CHR ''-''
               then c else CHR ''_'') v"

definition buildStatementId :: "int \<Rightarrow> statement_meta \<Rightarrow> source_info \<Rightarrow> string" where
  \<comment> \<open>the first argument is what \<^verbatim>\<open>Date.now()\<close> would return\<close>
  "buildStatementId now_ms meta context =
     (if truthy (m_statementYear meta) \<and> truthy (m_statementNumber meta)
      then let iban = account_iban (m_account meta);
               accountSegment = (if iban \<noteq> [] then drop (length iban - 6) iban else ''account'')
           in accountSegment @ ''-'' @ template (m_statementYear meta) @ ''-''
              @ padLeft (template (m_statementNumber meta)) 3
      else if truthy (entryName context)
      then buildFileSafeName (basename (template (entryName context)) ''.pdf'')
      else if originPath context \<noteq> []
      then buildFileSafeName (basename (originPath context) ''.pdf'')
      else ''statement-'' @ show_number (Some now_ms))"

definition strip_cr :: "string \<Rightarrow> string" where
  "strip_cr piece = (if piece \<noteq> [] \<and> last piece = CHR 0x0D then butlast piece else piece)"

definition split_lines :: "string \<Rightarrow> string list" where
  \<comment> \<open>\<^verbatim>\<open>text.split(/\r?\n/)\<close>\<close>
  "split_lines text =
     (let pieces = split_on CHR 0x0A text in map strip_cr (butlast pieces) @ [last pieces])"

definition parseStatement :: "clock_reading \<Rightarrow> pdf_buffer \<Rightarrow> source_info \<Rightarrow> string + statement" where
  "parseStatement now buffer context =
     (case buffer of
        Unreadable message \<Rightarrow> Inl message
      | Text text \<Rightarrow>
          let originalLines = split_lines text;
              trimmedLines = filter (\<lambda>line. line \<noteq> []) (map trim originalLines)
          in (case extractStatementMeta trimmedLines of
                Inl message \<Rightarrow> Inl message
              | Inr statementMeta \<Rightarrow>
                  (case extractOperations trimmedLines statementMeta of
                     Inl message \<Rightarrow> Inl message
                   | Inr ops \<Rightarrow>
                       Inr \<lparr>s_statementId = buildStatementId (millis now) statementMeta context,
                            s_generatedAt = iso now,
                            s_source = context\<lparr>entryName := or_null (entryName context)\<rparr>,
                            s_account = m_account statementMeta,
                            s_balances = m_balances statementMeta,
                            s_statementNumber = m_statementNumber statementMeta,
                            s_statementYear = m_statementYear statementMeta,
                            s_operations = ops,
                            s_rawStatementLines = map trimEnd originalLines\<rparr>)))"

definition writeStatementJson ::
  "statement \<Rightarrow> string \<Rightarrow> bool \<Rightarrow> world \<Rightarrow> string + (string \<times> world)" where
  \<comment> \<open>the result is the path written and the files afterwards\<close>
  "writeStatementJson st dir ow files =
     (let baseName = (if s_statementId st \<noteq> [] then s_statementId st
                      else buildFileSafeName (template
                             (js_or (entryName (s_source st)) (Some (originPath (s_source st))))));
          fileName = baseName @ ''.json'';
          targetPath = path_join dir fileName
      in if \<not> ow \<and> files targetPath \<noteq> None
         then Inl (''File already exists at '' @ targetPath @ ''. Use --overwrite to replace it.'')
         else Inr (targetPath, files(targetPath \<mapsto> StatementFile st)))"

fun processEntries ::
  "(source_info \<Rightarrow> clock_reading) \<Rightarrow> import_options \<Rightarrow> string \<Rightarrow> zip_entry list \<Rightarrow> world \<Rightarrow>
   processed_statement list \<times> failure list \<times> world" where
  \<comment> \<open>the \<^verbatim>\<open>for\<close> loop of \<^verbatim>\<open>processZipArchive\<close>: \<^verbatim>\<open>statements\<close>, \<^verbatim>\<open>failures\<close> and the
      files afterwards. The clock gives the time at which a document is parsed.\<close>
  "processEntries clock opts zipPath [] files = ([], [], files)"
| "processEntries clock opts zipPath (entry # entries) files =
     (if isDirectory entry then processEntries clock opts zipPath entries files
      else if \<not> endsWith (toLowerCase (entry_name entry)) ''.pdf''
      then processEntries clock opts zipPath entries files
      else let context = \<lparr>source_type = ''zip'', originPath = zipPath,
                            entryName = Some (entry_name entry)\<rparr>
        in (case parseStatement (clock context) (getData entry) context of
              Inl message \<Rightarrow>
                (case processEntries clock opts zipPath entries files of
                   (statements, failures, files') \<Rightarrow>
                     (statements,
                      \<lparr>f_source = ''zip'', f_path = zipPath, f_entryName = Some (entry_name entry),
                        f_error = message\<rparr> # failures, files'))
            | Inr parsed \<Rightarrow>
                (case writeStatementJson parsed (outputDir opts) (overwrite opts) files of
                   Inl message \<Rightarrow>
                     (case processEntries clock opts zipPath entries files of
                        (statements, failures, files') \<Rightarrow>
                          (statements,
                           \<lparr>f_source = ''zip'', f_path = zipPath,
                             f_entryName = Some (entry_name entry), f_error = message\<rparr> # failures,
                           files'))
                 | Inr (path, written) \<Rightarrow>
                     (case processEntries clock opts zipPath entries written of
                        (statements, failures, files') \<Rightarrow>
                          (statement.extend parsed (processed_statement.fields path) # statements,
                           failures, files')))))"

definition processZipArchive ::
  "(source_info \<Rightarrow> clock_reading) \<Rightarrow> import_options \<Rightarrow> string \<times> zip_entry list \<Rightarrow> world \<Rightarrow>
   processed_statement list \<times> failure list \<times> world" where
  \<comment> \<open>an archive is its path and the entries \<^verbatim>\<open>zip.getEntries()\<close> lists\<close>
  "processZipArchive clock opts archive files =
     processEntries clock opts (fst archive) (snd archive) files"

definition processSinglePdf ::
  "(source_info \<Rightarrow> clock_reading) \<Rightarrow> import_options \<Rightarrow> string \<times> pdf_buffer \<Rightarrow> world \<Rightarrow>
   processed_statement list \<times> failure list \<times> world" where
  "processSinglePdf clock opts pdf files =
     (let context = \<lparr>source_type = ''pdf'', originPath = fst pdf, entryName = None\<rparr> in
      case parseStatement (clock context) (snd pdf) context of
        Inl message \<Rightarrow>
          ([], [\<lparr>f_source = ''pdf'', f_path = fst pdf, f_entryName = None, f_error = message\<rparr>], files)
      | Inr parsed \<Rightarrow>
          (case writeStatementJson parsed (outputDir opts) (overwrite opts) files of
             Inl message \<Rightarrow>
               ([], [\<lparr>f_source = ''pdf'', f_path = fst pdf, f_entryName = None,
                       f_error = message\<rparr>], files)
           | Inr (path, written) \<Rightarrow>
               ([statement.extend parsed (processed_statement.fields path)], [], written)))"

definition indexEntries :: "processed_statement \<Rightarrow> index_entry list" where
  \<comment> \<open>what the inner loop of \<^verbatim>\<open>emitAggregatedIndex\<close> pushes for one statement\<close>
  "indexEntries st =
     map (\<lambda>oper. \<lparr>sequence = sequence oper, title = title oper, bookingDate = bookingDate oper,
                  executionDate = executionDate oper, valueDate = valueDate oper,
                  amount = amount oper, currency = currency oper, direction = direction oper,
                  communication = communication oper, bankReference = bankReference oper,
                  orderReference = orderReference oper,
                  counterpartyAccount = counterpartyAccount oper,
                  counterpartyBic = counterpartyBic oper,
                  counterpartyName = counterpartyName oper,
                  counterpartyAddress = counterpartyAddress oper,
                  statementId = Some (s_statementId st),
                  statementFile = Some (basename (outputPath st) []),
                  accountIban = Some (account_iban (s_account st)),
                  accountName = account_name (s_account st),
                  statementYear = s_statementYear st,
                  statementNumber = s_statementNumber st\<rparr>)
       (s_operations st)"

definition emitAggregatedIndex :: "string \<Rightarrow> processed_statement list \<Rightarrow> string \<Rightarrow> world \<Rightarrow> world" where
  \<comment> \<open>the first argument is \<^verbatim>\<open>new Date().toISOString()\<close> at the time of the call\<close>
  "emitAggregatedIndex now statements dir files =
     files(path_join dir ''operations-index.json'' \<mapsto>
       IndexFile \<lparr>index_generatedAt = now, index_operations = concat (map indexEntries statements)\<rparr>)"

fun processArchives ::
  "(source_info \<Rightarrow> clock_reading) \<Rightarrow> import_options \<Rightarrow> (string \<times> zip_entry list) list \<Rightarrow> world \<Rightarrow>
   processed_statement list \<times> failure list \<times> world" where
  \<comment> \<open>the first \<^verbatim>\<open>for\<close> loop of \<^verbatim>\<open>main\<close>\<close>
  "processArchives clock opts [] files = ([], [], files)"
| "processArchives clock opts (archive # archives) files =
     (case processZipArchive clock opts archive files of
        (statements, failures, files') \<Rightarrow>
          (case processArchives clock opts archives files' of
             (statements', failures', files'') \<Rightarrow>
               (statements @ statements', failures @ failures', files'')))"

fun processPdfs ::
  "(source_info \<Rightarrow> clock_reading) \<Rightarrow> import_options \<Rightarrow> (string \<times> pdf_buffer) list \<Rightarrow> world \<Rightarrow>
   processed_statement list \<times> failure list \<times> world" where
  \<comment> \<open>the second \<^verbatim>\<open>for\<close> loop of \<^verbatim>\<open>main\<close>\<close>
  "processPdfs clock opts [] files = ([], [], files)"
| "processPdfs clock opts (pdf # pdfs) files =
     (case processSinglePdf clock opts pdf files of
        (statements, failures, files') \<Rightarrow>
          (case processPdfs clock opts pdfs files' of
             (statements', failures', files'') \<Rightarrow>
               (statements @ statements', failures @ failures', files'')))"

record run_result =
  r_statements :: "processed_statement list"
  r_failures :: "failure list"
  r_files :: world
  exitCode :: nat

definition main ::
  "(source_info \<Rightarrow> clock_reading) \<Rightarrow> string \<Rightarrow> import_options \<Rightarrow>
   (string \<times> zip_entry list) list \<Rightarrow> (string \<times> pdf_buffer) list \<Rightarrow> world \<Rightarrow> run_result" where
  \<comment> \<open>\<^verbatim>\<open>main\<close> from the collected sources on: the clock of the parses, the time at which the
      index is written, the options, the archives and the standalone PDF files, and the
      files that exist. Archives are taken as opened; a failure of the archive library
      itself is outside the model.\<close>
  "main clock index_time opts zips pdfs files =
     (if zips = [] \<and> pdfs = []
      then \<lparr>r_statements = [], r_failures = [], r_files = files, exitCode = 0\<rparr>
      else (case processArchives clock opts zips files of
        (zipStatements, zipFailures, files1) \<Rightarrow>
          (case processPdfs clock opts pdfs files1 of
             (pdfStatements, pdfFailures, files2) \<Rightarrow>
               \<lparr>r_statements = zipStatements @ pdfStatements,
                r_failures = zipFailures @ pdfFailures,
                r_files = (if zipStatements @ pdfStatements \<noteq> []
                               then emitAggregatedIndex index_time (zipStatements @ pdfStatements)
                                      (outputDir opts) files2
                               else files2),
                exitCode = (if zipFailures @ pdfFailures \<noteq> [] then 1 else 0)\<rparr>)))"

section \<open>A worked example\<close>

text \<open>
  The scenario of the specification: one credit of 1500,00 booked on 2024-04-04 whose
  communication quotes invoice 220006. \<open>example_D\<close> reads the dates of the examples as
  milliseconds since the epoch, as \<^verbatim>\<open>new Date("2024-04-01").getTime()\<close> does; 2024-07-30
  and 2024-07-31 lie 120 and 121 days after 2024-04-01.
\<close>

definition example_D :: "string \<Rightarrow> int option" where
  "example_D s = (if s = ''2024-04-01'' then Some 1711929600000
                  else if s = ''2024-04-04'' then Some 1712188800000
                  else if s = ''2024-07-30'' then Some 1722297600000
                  else if s = ''2024-07-31'' then Some 1722384000000 else None)"

definition example_operation :: index_entry where
  "example_operation =
     \<lparr>sequence = Some ''0015'', title = Some ''SEPA CREDIT TRANSFER'',
      bookingDate = Some ''2024-04-04'', executionDate = None, valueDate = Some ''2024-04-04'',
      amount = Some 1500, currency = Some ''EUR'', direction = Some ''credit'',
      communication = Some ''INV 220006'', bankReference = None, orderReference = None,
      counterpartyAccount = None, counterpartyBic = None, counterpartyName = Some ''Acme Corp'',
      counterpartyAddress = None, statementId = Some ''547034-2024-001'',
      statementFile = Some ''547034-2024-001.json'', accountIban = Some ''BE68539007547034'',
      accountName = Some ''BELFIUS'', statementYear = Some ''2024'', statementNumber = Some ''001''\<rparr>"

definition example_invoice :: invoice where
  "example_invoice =
     \<lparr>inv_amount = Numeric 1500, inv_balance = Numeric 0, invoice_date = Some ''2024-04-01'',
      due_date = None, invoice_number = None, inv_number = Some ''220006'',
      inv_client = Some \<lparr>display_name = Some ''ACME corp.'', name = None\<rparr>\<rparr>"

definition open_invoice :: invoice where
  \<comment> \<open>the same invoice with nothing paid yet: its only target is the full amount\<close>
  "open_invoice = example_invoice\<lparr>inv_balance := Numeric 1500\<rparr>"

definition full_target :: target where
  "full_target = \<lparr>tvalue = 1500, tlabel = ''invoice amount''\<rparr>"

definition booked_day_120 :: index_entry where
  "booked_day_120 = example_operation\<lparr>sequence := Some ''0016'', bookingDate := Some ''2024-07-30''\<rparr>"

definition booked_day_121 :: index_entry where
  "booked_day_121 = example_operation\<lparr>sequence := Some ''0017'', bookingDate := Some ''2024-07-31''\<rparr>"

definition undated_operation :: index_entry where
  \<comment> \<open>a credit of the right amount whose statement gave neither a booking nor a value date\<close>
  "undated_operation = example_operation\<lparr>sequence := Some ''0018'', bookingDate := None, valueDate := None\<rparr>"

definition debit_operation :: index_entry where
  "debit_operation = example_operation\<lparr>sequence := Some ''0019'', direction := Some ''debit''\<rparr>"

definition invoice_without_amount :: invoice where
  "invoice_without_amount = example_invoice\<lparr>inv_amount := Absent\<rparr>"

definition same_day_invoice :: invoice where
  \<comment> \<open>an open invoice issued on the day the payment was booked\<close>
  "same_day_invoice = example_invoice\<lparr>inv_balance := Numeric 1500, invoice_date := Some ''2024-04-04''\<rparr>"

definition closer_operations :: "index_entry list" where
  \<comment> \<open>five more credits of 1500,00 of the same statement, booked on 2024-04-04\<close>
  "closer_operations =
     map (\<lambda>s. example_operation\<lparr>sequence := Some s\<rparr>) [''0001'', ''0002'', ''0003'', ''0004'', ''0005'']"

definition same_key_operation :: index_entry where
  \<comment> \<open>a credit with the statement id and the sequence of \<open>booked_day_120\<close>, booked on 2024-04-04\<close>
  "same_key_operation = example_operation\<lparr>sequence := Some ''0016''\<rparr>"

text \<open>
  A statement of two operations, the first with a value line of 0,00 and a plus sign; its
  header, and the two operations the importer extracts from it.
\<close>

definition zero_amount_lines :: "string list" where
  "zero_amount_lines =
     [''BE68 5390 0754 7034 EUR'', LABEL_OPERATIONS_HEADER, ''01-04-2024'',
      ''0016 PAIEMENT'', ''05-04-2024 0,00 +'', ''0017 FRAIS'', ''06-04-2024 12,50 -'']"

definition zero_amount_meta :: statement_meta where
  "zero_amount_meta =
     \<lparr>m_account = \<lparr>account_name = None, account_iban = ''BE68539007547034'',
                    account_currency = Some ''EUR'', account_bic = None\<rparr>,
      m_statementNumber = None, m_statementYear = None,
      m_balances = \<lparr>b_closing = \<lparr>balance_date = None, balance_amount = None\<rparr>,
                     b_opening = \<lparr>balance_date = None, balance_amount = None\<rparr>\<rparr>,
      operationsHeaderIndex = Some 1\<rparr>"

definition zero_amount_operation :: parsed_operation where
  "zero_amount_operation =
     \<lparr>sequence = Some ''0016'', title = Some ''PAIEMENT'', bookingDate = Some ''2024-04-01'',
      executionDate = None, valueDate = Some ''2024-04-05'', amount = Some 0,
      currency = Some ''EUR'', direction = Some ''credit'', communication = None,
      bankReference = None, orderReference = None, counterpartyAccount = None,
      counterpartyBic = None, counterpartyName = None, counterpartyAddress = None,
      counterpartyCurrency = None, additionalDetails = [], rawDetailLines = [],
      rawValueLine = Some ''05-04-2024 0,00 +''\<rparr>"

definition fee_operation :: parsed_operation where
  "fee_operation =
     \<lparr>sequence = Some ''0017'', title = Some ''FRAIS'', bookingDate = Some ''2024-04-01'',
      executionDate = None, valueDate = Some ''2024-04-06'', amount = Some (- (25 / 2)),
      currency = Some ''EUR'', direction = Some ''debit'', communication = None,
      bankReference = None, orderReference = None, counterpartyAccount = None,
      counterpartyBic = None, counterpartyName = None, counterpartyAddress = None,
      counterpartyCurrency = None, additionalDetails = [], rawDetailLines = [],
      rawValueLine = Some ''06-04-2024 12,50 -''\<rparr>"

text \<open>
  An archive of three PDF files: two statements and, between them, a notice that is not a
  statement.
\<close>

definition zero_amount_text :: string where
  "zero_amount_text = concat (map (\<lambda>line. line @ [CHR 0x0A]) zero_amount_lines)"

definition good_entry :: zip_entry where
  "good_entry = \<lparr>entry_name = ''2024/april.pdf'', isDirectory = False, getData = Text zero_amount_text\<rparr>"

definition unparseable_entry :: zip_entry where
  \<comment> \<open>a PDF whose text has no line that looks like an IBAN\<close>
  "unparseable_entry =
     \<lparr>entry_name = ''2024/notice.PDF'', isDirectory = False,
      getData = Text (''Dear customer'' @ [CHR 0x0A] @ ''your card expires soon'')\<rparr>"

definition later_entry :: zip_entry where
  "later_entry = \<lparr>entry_name = ''2024/may.pdf'', isDirectory = False, getData = Text zero_amount_text\<rparr>"

definition example_clock :: "source_info \<Rightarrow> clock_reading" where
  "example_clock context = \<lparr>iso = ''2024-05-01T10:00:00.000Z'', millis = 1714557600000\<rparr>"

definition example_options :: import_options where
  "example_options = \<lparr>outputDir = ''data/statements/pdf'', overwrite = False\<rparr>"

text \<open>
  A second clock, an importer that may overwrite, and a batch of one archive and one
  standalone PDF file.
\<close>

definition later_clock :: "source_info \<Rightarrow> clock_reading" where
  "later_clock context = \<lparr>iso = ''2024-06-15T08:30:00.000Z'', millis = 1718440200000\<rparr>"

definition overwrite_options :: import_options where
  "overwrite_options = \<lparr>outputDir = ''data/statements/pdf'', overwrite = True\<rparr>"

definition example_zips :: "(string \<times> zip_entry list) list" where
  "example_zips = [(''bank.zip'', [good_entry, unparseable_entry])]"

definition example_pdfs :: "(string \<times> pdf_buffer) list" where
  "example_pdfs = [(''statements/march.pdf'', Text zero_amount_text)]"

section \<open>What the matching loop computes\<close>

text \<open>
  The loop body either leaves its state alone or records one candidate. The next
  definitions name the test it applies and the candidate it builds, so that the loop can be
  reasoned about without unfolding it each time; \<open>visitOperation_eq\<close> ties them to
  the loop body.
\<close>

definition qualifies :: "(string \<Rightarrow> int option) \<Rightarrow> real \<Rightarrow> invoice_context \<Rightarrow> target \<Rightarrow> index_entry \<Rightarrow> bool" where
  "qualifies D maxDays ctx tgt oper =
     (\<bar>roundCurrency (or_zero (amount oper)) - tvalue tgt\<bar> \<le> 1 / 1000
      \<and> \<not> days_gt (diffDays (invoiceDate ctx) (parseDate D (bookingDate oper))) maxDays)"

definition refScoreOf :: "invoice_context \<Rightarrow> index_entry \<Rightarrow> nat" where
  "refScoreOf ctx oper =
     (if invoiceNumberDigits ctx \<noteq> []
         \<and> str_includes (buildReferenceString oper) (invoiceNumberDigits ctx) then 3
      else if invoiceNumber ctx \<noteq> []
         \<and> str_includes (buildReferenceString oper) (normalize (Some (invoiceNumber ctx))) then 2
      else 0)"

definition daysDiffOf :: "(string \<Rightarrow> int option) \<Rightarrow> invoice_context \<Rightarrow> index_entry \<Rightarrow> real option" where
  "daysDiffOf D ctx oper =
     (case diffDays (invoiceDate ctx) (parseDate D (bookingDate oper)) of
        Infinity \<Rightarrow> None | Days d \<Rightarrow> Some d)"

definition candidateFor :: "(string \<Rightarrow> int option) \<Rightarrow> invoice_context \<Rightarrow> target \<Rightarrow> index_entry \<Rightarrow> candidate" where
  "candidateFor D ctx tgt oper =
     \<lparr>targetLabel = tlabel tgt, operation = oper, daysDiff = daysDiffOf D ctx oper,
      refScore = refScoreOf ctx oper,
      nameScore = computeNameScore (clientName ctx) (counterpartyName oper),
      confidence = computeConfidence (daysDiffOf D ctx oper) (refScoreOf ctx oper)
         (computeNameScore (clientName ctx) (counterpartyName oper)) (tlabel tgt)\<rparr>"

lemma visitOperation_eq:
  "visitOperation D maxDays ctx tgt st oper =
     (if qualifies D maxDays ctx tgt oper \<and> operationKey oper (tlabel tgt) \<notin> fst st
      then (insert (operationKey oper (tlabel tgt)) (fst st), snd st @ [candidateFor D ctx tgt oper])
      else st)"
  by (simp add: visitOperation_def qualifies_def candidateFor_def refScoreOf_def daysDiffOf_def Let_def)

lemma set_insertCandidate: "set (insertCandidate x ys) = insert x (set ys)"
  by (induction ys) auto

lemma set_sortCandidates: "set (sortCandidates xs) = set xs"
  by (induction xs) (simp_all add: sortCandidates_def set_insertCandidate)

lemma distinct_map_insertCandidate:
  "distinct (map f (insertCandidate x ys)) = distinct (map f (x # ys))"
  by (induction ys) (auto simp: set_insertCandidate)

lemma distinct_map_sortCandidates:
  "distinct (map f (sortCandidates xs)) = distinct (map f xs)"
  by (induction xs) (simp_all add: sortCandidates_def distinct_map_insertCandidate set_sortCandidates [unfolded sortCandidates_def])

lemma length_insertCandidate: "length (insertCandidate x ys) = Suc (length ys)"
  by (induction ys) auto

lemma length_sortCandidates: "length (sortCandidates xs) = length xs"
  by (induction xs) (simp_all add: sortCandidates_def length_insertCandidate)

definition candidateKey :: "candidate \<Rightarrow> string" where
  "candidateKey c = operationKey (operation c) (targetLabel c)"

definition scanTargets ::
  "(string \<Rightarrow> int option) \<Rightarrow> real \<Rightarrow> invoice_context \<Rightarrow> index_entry list \<Rightarrow>
   string set \<times> candidate list \<Rightarrow> target list \<Rightarrow> string set \<times> candidate list" where
  "scanTargets D maxDays ctx operations st tgts =
     foldl (\<lambda>st tgt. foldl (visitOperation D maxDays ctx tgt) st operations) st tgts"

lemma candidateKey_candidateFor [simp]:
  "candidateKey (candidateFor D ctx tgt oper) = operationKey oper (tlabel tgt)"
  by (simp add: candidateKey_def candidateFor_def)

lemma inner_members:
  "c \<in> set (snd (foldl (visitOperation D m ctx tgt) st ops)) \<Longrightarrow>
   c \<in> set (snd st) \<or> (\<exists>oper \<in> set ops. qualifies D m ctx tgt oper \<and> c = candidateFor D ctx tgt oper)"
proof (induction ops arbitrary: st)
  case Nil
  then show ?case by simp
next
  case (Cons a ops)
  from Cons.prems have "c \<in> set (snd (foldl (visitOperation D m ctx tgt) (visitOperation D m ctx tgt st a) ops))"
    by simp
  from Cons.IH [OF this] show ?case
    by (auto simp: visitOperation_eq split: if_splits)
qed

lemma outer_members:
  "c \<in> set (snd (scanTargets D m ctx ops st tgts)) \<Longrightarrow>
   c \<in> set (snd st) \<or>
   (\<exists>tgt \<in> set tgts. \<exists>oper \<in> set ops. qualifies D m ctx tgt oper \<and> c = candidateFor D ctx tgt oper)"
proof (induction tgts arbitrary: st)
  case Nil
  then show ?case by (simp add: scanTargets_def)
next
  case (Cons t tgts)
  from Cons.prems have "c \<in> set (snd (scanTargets D m ctx ops (foldl (visitOperation D m ctx t) st ops) tgts))"
    by (simp add: scanTargets_def)
  from Cons.IH [OF this] show ?case
    using inner_members [of c D m ctx t st ops] by auto
qed

lemma collectCandidates_scan:
  "collectCandidates D m invoice ops =
     snd (scanTargets D m (buildContext D invoice) ops ({}, [])
       (buildTargets (or_zero (parseNumber (inv_amount invoice)))
          (or_zero (parseNumber (inv_amount invoice)) - or_zero (parseNumber (inv_balance invoice)))))"
  by (simp add: collectCandidates_def scanTargets_def Let_def)

lemma collect_members:
  assumes "c \<in> set (collectCandidates D m invoice ops)"
  shows "\<exists>tgt \<in> set (buildTargets (or_zero (parseNumber (inv_amount invoice)))
          (or_zero (parseNumber (inv_amount invoice)) - or_zero (parseNumber (inv_balance invoice)))).
         \<exists>oper \<in> set ops. qualifies D m (buildContext D invoice) tgt oper
            \<and> c = candidateFor D (buildContext D invoice) tgt oper"
  using outer_members [of c D m "buildContext D invoice" ops "({}, [])"] assms
  by (simp add: collectCandidates_scan)

definition keys_ok :: "string set \<times> candidate list \<Rightarrow> bool" where
  "keys_ok st = (distinct (map candidateKey (snd st)) \<and> fst st = candidateKey ` set (snd st))"

lemma visit_keys_ok: "keys_ok st \<Longrightarrow> keys_ok (visitOperation D m ctx tgt st oper)"
  by (auto simp: keys_ok_def visitOperation_eq)

lemma inner_keys_ok: "keys_ok st \<Longrightarrow> keys_ok (foldl (visitOperation D m ctx tgt) st ops)"
  by (induction ops arbitrary: st) (simp_all add: visit_keys_ok)

lemma outer_keys_ok: "keys_ok st \<Longrightarrow> keys_ok (scanTargets D m ctx ops st tgts)"
  by (induction tgts arbitrary: st) (simp_all add: scanTargets_def inner_keys_ok)

lemma collect_keys_ok:
  "distinct (map candidateKey (collectCandidates D m invoice ops))"
  using outer_keys_ok [of "({}, [])" D m "buildContext D invoice" ops]
  by (simp add: collectCandidates_scan keys_ok_def)

lemma fst_visit_mono: "k \<in> fst st \<Longrightarrow> k \<in> fst (visitOperation D m ctx tgt st oper)"
  by (simp add: visitOperation_eq)

lemma fst_inner_mono: "k \<in> fst st \<Longrightarrow> k \<in> fst (foldl (visitOperation D m ctx tgt) st ops)"
  by (induction ops arbitrary: st) (simp_all add: fst_visit_mono)

lemma fst_outer_mono: "k \<in> fst st \<Longrightarrow> k \<in> fst (scanTargets D m ctx ops st tgts)"
  by (induction tgts arbitrary: st) (simp_all add: scanTargets_def fst_inner_mono)

lemma inner_key_seen:
  "oper \<in> set ops \<Longrightarrow> qualifies D m ctx tgt oper \<Longrightarrow>
   operationKey oper (tlabel tgt) \<in> fst (foldl (visitOperation D m ctx tgt) st ops)"
proof (induction ops arbitrary: st)
  case Nil
  then show ?case by simp
next
  case (Cons a ops)
  show ?case
  proof (cases "a = oper")
    case True
    have "operationKey oper (tlabel tgt) \<in> fst (visitOperation D m ctx tgt st oper)"
      using Cons.prems(2) by (simp add: visitOperation_eq)
    then show ?thesis using True by (simp add: fst_inner_mono)
  next
    case False
    with Cons show ?thesis by simp
  qed
qed

lemma outer_key_seen:
  "tgt \<in> set tgts \<Longrightarrow> oper \<in> set ops \<Longrightarrow> qualifies D m ctx tgt oper \<Longrightarrow>
   operationKey oper (tlabel tgt) \<in> fst (scanTargets D m ctx ops st tgts)"
proof (induction tgts arbitrary: st)
  case Nil
  then show ?case by simp
next
  case (Cons t tgts)
  show ?case
  proof (cases "t = tgt")
    case True
    have "operationKey oper (tlabel tgt) \<in> fst (foldl (visitOperation D m ctx tgt) st ops)"
      using Cons.prems by (simp add: inner_key_seen)
    then have "operationKey oper (tlabel tgt) \<in>
        fst (scanTargets D m ctx ops (foldl (visitOperation D m ctx tgt) st ops) tgts)"
      by (rule fst_outer_mono)
    then show ?thesis using True by (simp add: scanTargets_def)
  next
    case False
    with Cons.prems have "tgt \<in> set tgts" by simp
    from Cons.IH [OF this Cons.prems(2,3)] show ?thesis by (simp add: scanTargets_def)
  qed
qed

lemma label_clash: "a @ ''invoice amount'' \<noteq> b @ ''recorded partial payment''"
proof
  assume "a @ ''invoice amount'' = b @ ''recorded partial payment''"
  then have "take 14 (rev (a @ ''invoice amount'')) = take 14 (rev (b @ ''recorded partial payment''))"
    by simp
  then show False by simp
qed

lemma buildTargets_labels:
  "tgt \<in> set (buildTargets a p) \<Longrightarrow>
   tlabel tgt = ''invoice amount'' \<or> tlabel tgt = ''recorded partial payment''"
  by (auto simp: buildTargets_def split: if_splits)

lemma key_label_eq:
  assumes "operationKey o1 l1 = operationKey o2 l2"
    and "l1 = ''invoice amount'' \<or> l1 = ''recorded partial payment''"
    and "l2 = ''invoice amount'' \<or> l2 = ''recorded partial payment''"
  shows "l1 = l2"
  using assms label_clash [of "template (statementId o1) @ '':'' @
     template (js_or (js_or (sequence o1) (bankReference o1)) (bookingDate o1)) @ '':''"
     "template (statementId o2) @ '':'' @
     template (js_or (js_or (sequence o2) (bankReference o2)) (bookingDate o2)) @ '':''"]
    label_clash [of "template (statementId o2) @ '':'' @
     template (js_or (js_or (sequence o2) (bankReference o2)) (bookingDate o2)) @ '':''"
     "template (statementId o1) @ '':'' @
     template (js_or (js_or (sequence o1) (bankReference o1)) (bookingDate o1)) @ '':''"]
  by (auto simp: operationKey_def)

lemma confidence_day0_ref3: "80 \<le> computeConfidence (Some 0) 3 n l"
  by (simp add: computeConfidence_def scoreDate_def scoreReference_def scoreName_def
      scoreTarget_def js_round_def)

lemma confidence_candidateFor:
  "confidence (candidateFor D ctx tgt oper) =
     computeConfidence (daysDiff (candidateFor D ctx tgt oper)) (refScore (candidateFor D ctx tgt oper))
       (nameScore (candidateFor D ctx tgt oper)) (targetLabel (candidateFor D ctx tgt oper))"
  by (simp add: candidateFor_def)

lemma findMatches_all:
  "length (collectCandidates D m invoice ops) \<le> 5 \<Longrightarrow>
   set (findMatchesForInvoice D m invoice ops) = set (collectCandidates D m invoice ops)"
  by (simp add: findMatchesForInvoice_def length_sortCandidates set_sortCandidates)

lemma findMatches_subset:
  "c \<in> set (findMatchesForInvoice D m invoice ops) \<Longrightarrow> c \<in> set (collectCandidates D m invoice ops)"
  using set_take_subset [of 5 "sortCandidates (collectCandidates D m invoice ops)"]
  by (auto simp: findMatchesForInvoice_def set_sortCandidates)

definition invoiceTargets :: "invoice \<Rightarrow> target list" where
  "invoiceTargets invoice =
     buildTargets (or_zero (parseNumber (inv_amount invoice)))
       (or_zero (parseNumber (inv_amount invoice)) - or_zero (parseNumber (inv_balance invoice)))"

definition dayDistance :: "(string \<Rightarrow> int option) \<Rightarrow> invoice \<Rightarrow> index_entry \<Rightarrow> days" where
  "dayDistance D invoice oper =
     diffDays (invoiceDate (buildContext D invoice)) (parseDate D (bookingDate oper))"

definition amountMatches :: "target \<Rightarrow> index_entry \<Rightarrow> bool" where
  "amountMatches tgt oper = (\<bar>roundCurrency (or_zero (amount oper)) - tvalue tgt\<bar> \<le> 1 / 1000)"

lemma qualifies_iff:
  "qualifies D m (buildContext D invoice) tgt oper =
     (amountMatches tgt oper \<and> \<not> days_gt (dayDistance D invoice oper) m)"
  by (simp add: qualifies_def amountMatches_def dayDistance_def)

lemma collect_members':
  assumes "c \<in> set (collectCandidates D m invoice ops)"
  shows "\<exists>tgt \<in> set (invoiceTargets invoice). \<exists>oper \<in> set ops.
           amountMatches tgt oper \<and> \<not> days_gt (dayDistance D invoice oper) m
           \<and> c = candidateFor D (buildContext D invoice) tgt oper"
  using collect_members [OF assms] by (simp add: invoiceTargets_def qualifies_iff)

lemma operation_candidateFor [simp]: "operation (candidateFor D ctx tgt oper) = oper"
  by (simp add: candidateFor_def)

lemma targetLabel_candidateFor [simp]: "targetLabel (candidateFor D ctx tgt oper) = tlabel tgt"
  by (simp add: candidateFor_def)

lemma daysDiff_candidateFor:
  "dayDistance D invoice oper = Days d \<Longrightarrow>
   daysDiff (candidateFor D (buildContext D invoice) tgt oper) = Some d"
  by (simp add: candidateFor_def daysDiffOf_def dayDistance_def)

lemma candidateFor_label_cong:
  "tlabel t1 = tlabel t2 \<Longrightarrow> candidateFor D ctx t1 oper = candidateFor D ctx t2 oper"
  by (simp add: candidateFor_def)

lemma collect_keys:
  "fst (scanTargets D m ctx ops ({}, []) tgts) = candidateKey ` set (snd (scanTargets D m ctx ops ({}, []) tgts))"
  using outer_keys_ok [of "({}, [])" D m ctx ops tgts] by (simp add: keys_ok_def)

lemma qualifying_included:
  assumes op_in: "oper \<in> set ops"
    and tgt_in: "tgt \<in> set (invoiceTargets invoice)"
    and am: "amountMatches tgt oper"
    and dd: "\<not> days_gt (dayDistance D invoice oper) m"
    and uniq: "\<forall>o' \<in> set ops. operationKey o' (tlabel tgt) = operationKey oper (tlabel tgt) \<longrightarrow> o' = oper"
  shows "candidateFor D (buildContext D invoice) tgt oper \<in> set (collectCandidates D m invoice ops)"
proof -
  let ?ctx = "buildContext D invoice"
  let ?tgts = "buildTargets (or_zero (parseNumber (inv_amount invoice)))
       (or_zero (parseNumber (inv_amount invoice)) - or_zero (parseNumber (inv_balance invoice)))"
  have q: "qualifies D m ?ctx tgt oper" using am dd by (simp add: qualifies_iff)
  have t: "tgt \<in> set ?tgts" using tgt_in by (simp add: invoiceTargets_def)
  have "operationKey oper (tlabel tgt) \<in> fst (scanTargets D m ?ctx ops ({}, []) ?tgts)"
    using t op_in q by (rule outer_key_seen)
  then have "operationKey oper (tlabel tgt) \<in> candidateKey ` set (collectCandidates D m invoice ops)"
    by (simp add: collect_keys collectCandidates_scan)
  then obtain c where c_in: "c \<in> set (collectCandidates D m invoice ops)"
    and c_key: "candidateKey c = operationKey oper (tlabel tgt)" by auto
  from collect_members [OF c_in] obtain tgt' o' where t': "tgt' \<in> set ?tgts" and o': "o' \<in> set ops"
    and c_eq: "c = candidateFor D ?ctx tgt' o'" by blast
  from c_key c_eq have k: "operationKey o' (tlabel tgt') = operationKey oper (tlabel tgt)" by simp
  have "tlabel tgt' = tlabel tgt"
    using k buildTargets_labels [OF t'] buildTargets_labels [OF t] by (rule key_label_eq)
  moreover from this k uniq o' have "o' = oper" by simp
  ultimately have "c = candidateFor D ?ctx tgt oper"
    using c_eq candidateFor_label_cong [of tgt' tgt D ?ctx oper] by simp
  with c_in show ?thesis by simp
qed

lemma beyond_window_excluded:
  assumes "days_gt (dayDistance D invoice oper) m"
    and "c \<in> set (collectCandidates D m invoice ops)"
  shows "operation c \<noteq> oper"
proof
  assume eq: "operation c = oper"
  from collect_members' [OF assms(2)] obtain tgt o' where
    "\<not> days_gt (dayDistance D invoice o') m" and "c = candidateFor D (buildContext D invoice) tgt o'"
    by blast
  with eq assms(1) show False by simp
qed

lemma undated_never_reported:
  assumes "parseDate D (bookingDate oper) = None \<or> invoiceDate (buildContext D invoice) = None"
    and "c \<in> set (findMatchesForInvoice D maxDays invoice operations)"
  shows "operation c \<noteq> oper"
proof -
  from assms(1) have "dayDistance D invoice oper = Infinity"
    by (auto simp: dayDistance_def diffDays_def split: option.splits)
  then have "days_gt (dayDistance D invoice oper) maxDays"
    by (simp add: days_gt_def)
  then show ?thesis
    using beyond_window_excluded findMatches_subset assms(2) by blast
qed

lemma loadOperations_members:
  "oper \<in> set (loadOperations index) \<Longrightarrow>
   \<exists>e \<in> set index. toLowerCase (sanitize (direction e)) = ''credit'' \<and> amount e \<noteq> None
     \<and> oper = e\<lparr>amount := Some (or_zero (amount e)),
                  bookingDate := or_null (js_or (bookingDate e) (valueDate e))\<rparr>"
  by (auto simp: loadOperations_def)

lemma findMatches_operation:
  "c \<in> set (findMatchesForInvoice D m invoice ops) \<Longrightarrow> operation c \<in> set ops"
  using collect_members' [of c D m invoice ops] findMatches_subset [of c D m invoice ops] by auto

lemma not_credit_debit: "toLowerCase (sanitize (Some ''debit'')) \<noteq> ''credit''"
  by code_simp

lemma not_credit_null: "toLowerCase (sanitize None) \<noteq> ''credit''"
  by code_simp

lemma no_targets_no_candidates:
  "invoiceTargets invoice = [] \<Longrightarrow> collectCandidates D m invoice ops = []"
  by (simp add: collectCandidates_def invoiceTargets_def Let_def)

lemma unusable_amount_no_targets:
  "parseNumber (inv_amount invoice) = None \<Longrightarrow> 0 \<le> or_zero (parseNumber (inv_balance invoice)) \<Longrightarrow>
   invoiceTargets invoice = []"
  by (simp add: invoiceTargets_def buildTargets_def or_zero_def)

lemma no_qualifying_no_candidates:
  assumes "\<forall>tgt \<in> set (invoiceTargets invoice). \<forall>oper \<in> set ops.
      \<not> (amountMatches tgt oper \<and> \<not> days_gt (dayDistance D invoice oper) m)"
  shows "collectCandidates D m invoice ops = []"
proof (rule ccontr)
  assume "collectCandidates D m invoice ops \<noteq> []"
  then obtain c where "c \<in> set (collectCandidates D m invoice ops)"
    by (cases "collectCandidates D m invoice ops") auto
  from collect_members' [OF this] assms show False by blast
qed

text \<open>
  When every entry qualifies for the one target of an invoice and the keys differ, the
  loops record the entries in the order of the index; a candidate that sorts after five
  others, themselves in order, is cut from the result.
\<close>

lemma inner_all_recorded:
  assumes "\<forall>oper \<in> set ops. qualifies D m ctx tgt oper"
    and "distinct (map (\<lambda>oper. operationKey oper (tlabel tgt)) ops)"
    and "\<forall>oper \<in> set ops. operationKey oper (tlabel tgt) \<notin> fst st"
  shows "snd (foldl (visitOperation D m ctx tgt) st ops) = snd st @ map (candidateFor D ctx tgt) ops"
  using assms
proof (induction ops arbitrary: st)
  case Nil
  then show ?case by simp
next
  case (Cons a ops)
  let ?st = "(insert (operationKey a (tlabel tgt)) (fst st), snd st @ [candidateFor D ctx tgt a])"
  from Cons.prems have v: "visitOperation D m ctx tgt st a = ?st"
    by (simp add: visitOperation_eq)
  from Cons.prems have "\<forall>oper \<in> set ops. operationKey oper (tlabel tgt) \<notin> fst ?st"
    by (auto simp: image_iff)
  with Cons.IH [of ?st] Cons.prems show ?case
    by (simp add: v)
qed

lemma single_target_all_recorded:
  assumes "invoiceTargets invoice = [tgt]"
    and "\<forall>oper \<in> set ops. amountMatches tgt oper \<and> \<not> days_gt (dayDistance D invoice oper) m"
    and "distinct (map (\<lambda>oper. operationKey oper (tlabel tgt)) ops)"
  shows "collectCandidates D m invoice ops = map (candidateFor D (buildContext D invoice) tgt) ops"
proof -
  have "\<forall>oper \<in> set ops. qualifies D m (buildContext D invoice) tgt oper"
    using assms(2) by (simp add: qualifies_iff)
  from inner_all_recorded [OF this assms(3), of "({}, [])"] assms(1) show ?thesis
    by (simp add: collectCandidates_scan scanTargets_def invoiceTargets_def)
qed

lemma insert_before_all:
  "\<forall>y \<in> set ys. compareCandidates x y \<le> 0 \<Longrightarrow> insertCandidate x ys = x # ys"
  by (cases ys) simp_all

lemma insert_after_all:
  "\<forall>y \<in> set ys. 0 < compareCandidates x y \<Longrightarrow> insertCandidate x ys = ys @ [x]"
  by (induction ys) simp_all

lemma sort_ties:
  "\<forall>x \<in> set xs. \<forall>y \<in> set xs. compareCandidates x y \<le> 0 \<Longrightarrow> sortCandidates xs = xs"
proof (induction xs)
  case Nil
  then show ?case by (simp add: sortCandidates_def)
next
  case (Cons a xs)
  then have "sortCandidates xs = xs" by simp
  with Cons.prems show ?case
    by (simp add: sortCandidates_def insert_before_all)
qed

lemma later_candidate_is_cut:
  assumes "\<forall>x \<in> set cs. \<forall>y \<in> set cs. compareCandidates x y \<le> 0"
    and "\<forall>y \<in> set cs. 0 < compareCandidates c y" and "length cs = 5"
  shows "take 5 (sortCandidates (c # cs)) = cs"
proof -
  have "sortCandidates (c # cs) = insertCandidate c (sortCandidates cs)"
    by (simp add: sortCandidates_def)
  with assms show ?thesis
    by (simp add: sort_ties insert_after_all)
qed

lemma compare_by_keys:
  "dayKey x = dayKey y \<Longrightarrow> refScore x = refScore y \<Longrightarrow> nameScore x = nameScore y \<Longrightarrow>
   compareCandidates x y = 0"
  "dayKey y < dayKey x \<Longrightarrow> 0 < compareCandidates x y"
  by (simp_all add: compareCandidates_def)

lemma keys_candidateFor:
  "dayKey (candidateFor D ctx tgt oper) = (case daysDiffOf D ctx oper of None \<Rightarrow> 9007199254740991 | Some d \<Rightarrow> d)"
  "refScore (candidateFor D ctx tgt oper) = refScoreOf ctx oper"
  "nameScore (candidateFor D ctx tgt oper) = computeNameScore (clientName ctx) (counterpartyName oper)"
  by (simp_all add: dayKey_def candidateFor_def)

section \<open>Claims about the matcher\<close>

text \<open>
  C5. Every candidate the matcher returns with \<open>daysDiff = 0\<close> and \<open>refScore = 3\<close> has a
  confidence of at least 80, whatever its name score and whichever target it was found
  for (the partial-payment label included).
\<close>

theorem confidence_at_least_80:
  assumes "c \<in> set (findMatchesForInvoice D maxDays invoice operations)"
    and "daysDiff c = Some 0" and "refScore c = 3"
  shows "80 \<le> confidence c"
proof -
  from assms(1) have "c \<in> set (collectCandidates D maxDays invoice operations)"
    by (rule findMatches_subset)
  then obtain tgt oper where "c = candidateFor D (buildContext D invoice) tgt oper"
    using collect_members by blast
  then have "confidence c = computeConfidence (daysDiff c) (refScore c) (nameScore c) (targetLabel c)"
    by (simp add: confidence_candidateFor)
  with assms(2,3) show ?thesis
    by (simp add: confidence_day0_ref3)
qed

theorem confidence_at_least_80_witness:
  "hd (findMatchesForInvoice example_D 120 same_day_invoice [example_operation])
     \<in> set (findMatchesForInvoice example_D 120 same_day_invoice [example_operation])
   \<and> daysDiff (hd (findMatchesForInvoice example_D 120 same_day_invoice [example_operation])) = Some 0
   \<and> refScore (hd (findMatchesForInvoice example_D 120 same_day_invoice [example_operation])) = 3
   \<and> 80 \<le> confidence (hd (findMatchesForInvoice example_D 120 same_day_invoice [example_operation]))"
proof -
  have m: "hd (findMatchesForInvoice example_D 120 same_day_invoice [example_operation])
     \<in> set (findMatchesForInvoice example_D 120 same_day_invoice [example_operation])"
    by code_simp
  have d: "daysDiff (hd (findMatchesForInvoice example_D 120 same_day_invoice [example_operation])) = Some 0"
    by code_simp
  have r: "refScore (hd (findMatchesForInvoice example_D 120 same_day_invoice [example_operation])) = 3"
    by code_simp
  from confidence_at_least_80 [OF m d r] m d r show ?thesis by simp
qed

text \<open>
  C8. The specification says that a candidate at a day difference of exactly 120 is
  included. The date filter does let it pass (\<^verbatim>\<open>days > MAX_DATE_DIFF_DAYS\<close> is false at 120),
  but two other steps of the function can still leave it out. With five closer
  candidates, the entry at 120 days is collected and then cut by \<^verbatim>\<open>slice(0, 5)\<close>; after an
  entry with the same statement id and sequence, it is not collected at all, because the
  key has been seen. Both lists below are credits of the invoice's amount, as
  \<open>loadOperations\<close> hands them to the matcher.
\<close>

theorem day_120_entry_left_out:
  "dayDistance example_D open_invoice booked_day_120 = Days 120
   \<and> amountMatches full_target booked_day_120
   \<and> invoiceTargets open_invoice = [full_target]
   \<and> loadOperations (booked_day_120 # closer_operations) = booked_day_120 # closer_operations
   \<and> map operation (collectCandidates example_D (MAX_DATE_DIFF_DAYS None) open_invoice
         (booked_day_120 # closer_operations)) = booked_day_120 # closer_operations
   \<and> map operation (findMatchesForInvoice example_D (MAX_DATE_DIFF_DAYS None) open_invoice
         (booked_day_120 # closer_operations)) = closer_operations
   \<and> loadOperations [same_key_operation, booked_day_120] = [same_key_operation, booked_day_120]
   \<and> map operation (collectCandidates example_D (MAX_DATE_DIFF_DAYS None) open_invoice
         [same_key_operation, booked_day_120]) = [same_key_operation]
   \<and> map operation (findMatchesForInvoice example_D (MAX_DATE_DIFF_DAYS None) open_invoice
         [same_key_operation, booked_day_120]) = [same_key_operation]
   \<and> booked_day_120 \<notin> set closer_operations \<and> booked_day_120 \<noteq> same_key_operation"
proof -
  let ?ctx = "buildContext example_D open_invoice"
  let ?cf = "candidateFor example_D ?ctx full_target"
  have a: "dayDistance example_D open_invoice booked_day_120 = Days 120
      \<and> amountMatches full_target booked_day_120" by code_simp
  have t: "invoiceTargets open_invoice = [full_target]" by code_simp
  have l: "loadOperations (booked_day_120 # closer_operations) = booked_day_120 # closer_operations"
    by code_simp
  have q: "\<forall>oper \<in> set (booked_day_120 # closer_operations). amountMatches full_target oper
     \<and> \<not> days_gt (dayDistance example_D open_invoice oper) (MAX_DATE_DIFF_DAYS None)"
    by code_simp
  have k: "distinct (map (\<lambda>oper. operationKey oper (tlabel full_target))
      (booked_day_120 # closer_operations))"
    by code_simp
  have near: "\<forall>oper \<in> set closer_operations.
      daysDiffOf example_D ?ctx oper = Some 3 \<and> refScoreOf ?ctx oper = 3
      \<and> computeNameScore (clientName ?ctx) (counterpartyName oper) = 2"
    by code_simp
  have far: "daysDiffOf example_D ?ctx booked_day_120 = Some 120"
    by code_simp
  have n: "length closer_operations = 5" by code_simp
  have c: "collectCandidates example_D (MAX_DATE_DIFF_DAYS None) open_invoice
      (booked_day_120 # closer_operations) = map ?cf (booked_day_120 # closer_operations)"
    using t q k by (rule single_target_all_recorded)
  have ties: "\<forall>x \<in> set (map ?cf closer_operations). \<forall>y \<in> set (map ?cf closer_operations).
      compareCandidates x y \<le> 0"
    using near by (auto simp: compare_by_keys(1) keys_candidateFor)
  have later: "\<forall>y \<in> set (map ?cf closer_operations). 0 < compareCandidates (?cf booked_day_120) y"
    using near far by (auto intro!: compare_by_keys(2) simp: keys_candidateFor)
  have "take 5 (sortCandidates (?cf booked_day_120 # map ?cf closer_operations))
      = map ?cf closer_operations"
    using ties later n by (intro later_candidate_is_cut) simp_all
  then have f: "findMatchesForInvoice example_D (MAX_DATE_DIFF_DAYS None) open_invoice
      (booked_day_120 # closer_operations) = map ?cf closer_operations"
    by (simp add: findMatchesForInvoice_def c)
  have s: "loadOperations [same_key_operation, booked_day_120] = [same_key_operation, booked_day_120]"
    by code_simp
  have sc: "map operation (collectCandidates example_D (MAX_DATE_DIFF_DAYS None) open_invoice
         [same_key_operation, booked_day_120]) = [same_key_operation]"
    by code_simp
  have sf: "map operation (findMatchesForInvoice example_D (MAX_DATE_DIFF_DAYS None) open_invoice
         [same_key_operation, booked_day_120]) = [same_key_operation]"
    by code_simp
  have d: "booked_day_120 \<notin> set closer_operations \<and> booked_day_120 \<noteq> same_key_operation"
    by code_simp
  have mc: "map operation (map ?cf (booked_day_120 # closer_operations)) = booked_day_120 # closer_operations"
    "map operation (map ?cf closer_operations) = closer_operations"
    by (simp_all add: o_def)
  from a t l s sc sf d mc show ?thesis
    by (simp only: c f) simp
qed

text \<open>
  C8, as amended. With the default window of 120 days (\<open>MAX_DATE_DIFF_DAYS None\<close>), an
  index entry that matches a target's amount and lies exactly 120 days from the invoice
  date is in the candidate list the loops collect, with a day difference of 120, provided
  no other entry of the index has the same key for that target (the loop skips a key it
  has already recorded); it is in the returned list too when at most five candidates were
  collected, so that nothing is cut. An entry that lies 121 days away is in neither the
  collected nor the returned list.
\<close>

theorem date_window_boundary:
  "(oper \<in> set operations \<and> tgt \<in> set (invoiceTargets invoice) \<and> amountMatches tgt oper
      \<and> (\<forall>o' \<in> set operations.
            operationKey o' (tlabel tgt) = operationKey oper (tlabel tgt) \<longrightarrow> o' = oper)
      \<and> dayDistance D invoice oper = Days 120
    \<longrightarrow> candidateFor D (buildContext D invoice) tgt oper
          \<in> set (collectCandidates D (MAX_DATE_DIFF_DAYS None) invoice operations)
      \<and> daysDiff (candidateFor D (buildContext D invoice) tgt oper) = Some 120
      \<and> (length (collectCandidates D (MAX_DATE_DIFF_DAYS None) invoice operations) \<le> 5
         \<longrightarrow> candidateFor D (buildContext D invoice) tgt oper
               \<in> set (findMatchesForInvoice D (MAX_DATE_DIFF_DAYS None) invoice operations)))
   \<and> (dayDistance D invoice oper = Days 121
    \<longrightarrow> (\<forall>c \<in> set (collectCandidates D (MAX_DATE_DIFF_DAYS None) invoice operations). operation c \<noteq> oper)
      \<and> (\<forall>c \<in> set (findMatchesForInvoice D (MAX_DATE_DIFF_DAYS None) invoice operations). operation c \<noteq> oper))"
proof (intro conjI impI)
  assume a: "oper \<in> set operations \<and> tgt \<in> set (invoiceTargets invoice) \<and> amountMatches tgt oper
      \<and> (\<forall>o' \<in> set operations.
            operationKey o' (tlabel tgt) = operationKey oper (tlabel tgt) \<longrightarrow> o' = oper)
      \<and> dayDistance D invoice oper = Days 120"
  then have "\<not> days_gt (dayDistance D invoice oper) (MAX_DATE_DIFF_DAYS None)"
    by (simp add: days_gt_def MAX_DATE_DIFF_DAYS_def)
  with a show m: "candidateFor D (buildContext D invoice) tgt oper
          \<in> set (collectCandidates D (MAX_DATE_DIFF_DAYS None) invoice operations)"
    by (intro qualifying_included) simp_all
  from a show "daysDiff (candidateFor D (buildContext D invoice) tgt oper) = Some 120"
    by (simp add: daysDiff_candidateFor)
  assume "length (collectCandidates D (MAX_DATE_DIFF_DAYS None) invoice operations) \<le> 5"
  with m show "candidateFor D (buildContext D invoice) tgt oper
               \<in> set (findMatchesForInvoice D (MAX_DATE_DIFF_DAYS None) invoice operations)"
    by (simp add: findMatches_all)
next
  assume "dayDistance D invoice oper = Days 121"
  then have g: "days_gt (dayDistance D invoice oper) (MAX_DATE_DIFF_DAYS None)"
    by (simp add: days_gt_def MAX_DATE_DIFF_DAYS_def)
  show "\<forall>c \<in> set (collectCandidates D (MAX_DATE_DIFF_DAYS None) invoice operations). operation c \<noteq> oper"
    using beyond_window_excluded [OF g] by blast
  show "\<forall>c \<in> set (findMatchesForInvoice D (MAX_DATE_DIFF_DAYS None) invoice operations). operation c \<noteq> oper"
    using beyond_window_excluded [OF g] findMatches_subset by blast
qed

theorem date_window_boundary_witness:
  "dayDistance example_D open_invoice booked_day_120 = Days 120
   \<and> candidateFor example_D (buildContext example_D open_invoice) full_target booked_day_120
       \<in> set (findMatchesForInvoice example_D (MAX_DATE_DIFF_DAYS None) open_invoice
               [booked_day_120, booked_day_121])
   \<and> dayDistance example_D open_invoice booked_day_121 = Days 121
   \<and> booked_day_121 \<notin> operation ` set (findMatchesForInvoice example_D (MAX_DATE_DIFF_DAYS None)
         open_invoice [booked_day_120, booked_day_121])"
proof -
  have h1: "booked_day_120 \<in> set [booked_day_120, booked_day_121]
      \<and> full_target \<in> set (invoiceTargets open_invoice) \<and> amountMatches full_target booked_day_120
      \<and> (\<forall>o' \<in> set [booked_day_120, booked_day_121].
            operationKey o' (tlabel full_target) = operationKey booked_day_120 (tlabel full_target)
            \<longrightarrow> o' = booked_day_120)
      \<and> dayDistance example_D open_invoice booked_day_120 = Days 120"
    by code_simp
  have h2: "dayDistance example_D open_invoice booked_day_121 = Days 121"
    by code_simp
  have h3: "length (collectCandidates example_D (MAX_DATE_DIFF_DAYS None) open_invoice
               [booked_day_120, booked_day_121]) \<le> 5"
    by code_simp
  from h1 h3 date_window_boundary [where oper = booked_day_120 and tgt = full_target
      and operations = "[booked_day_120, booked_day_121]" and invoice = open_invoice and D = example_D]
  have a: "candidateFor example_D (buildContext example_D open_invoice) full_target booked_day_120
       \<in> set (findMatchesForInvoice example_D (MAX_DATE_DIFF_DAYS None) open_invoice
               [booked_day_120, booked_day_121])"
    by blast
  from h2 date_window_boundary [where oper = booked_day_121 and tgt = full_target
      and operations = "[booked_day_120, booked_day_121]" and invoice = open_invoice and D = example_D]
  have b: "\<forall>c \<in> set (findMatchesForInvoice example_D (MAX_DATE_DIFF_DAYS None) open_invoice
      [booked_day_120, booked_day_121]). operation c \<noteq> booked_day_121"
    by blast
  from a b h1 h2 show ?thesis by auto
qed

text \<open>
  C1. The specification says that an entry without a usable date passes the date filter
  and is reported with \<open>daysDiff\<close> null. The code does not do that: \<^verbatim>\<open>diffDays\<close> returns
  \<^verbatim>\<open>Infinity\<close> for a missing date, and \<^verbatim>\<open>Infinity > MAX_DATE_DIFF_DAYS\<close> drops the
  entry (\<open>undated_never_reported\<close> above). The branches that would handle such a
  candidate (the \<^verbatim>\<open>null\<close> day difference, the \<^verbatim>\<open>+5\<close> of the confidence, the sort key)
  are never reached for a finite window. The theorem evaluates the code on one undated
  credit of the invoice's amount.
\<close>

theorem undated_entry_is_dropped:
  "findMatchesForInvoice example_D (MAX_DATE_DIFF_DAYS None) open_invoice
     (loadOperations [undated_operation]) = []
   \<and> parseDate example_D (bookingDate (hd (loadOperations [undated_operation]))) = None
   \<and> amountMatches full_target (hd (loadOperations [undated_operation]))
   \<and> invoiceTargets open_invoice = [full_target]"
  by code_simp

text \<open>
  C2. The key under which the loop records a candidate ends with the label of the target,
  so the same index entry can be reported once per target. It is reported twice for the
  invoice of the specification's own scenario, whose balance is 0: the amount paid equals
  the full amount and both targets have the value 1500.
\<close>

theorem same_operation_reported_twice:
  "map operation (findMatchesForInvoice example_D (MAX_DATE_DIFF_DAYS None) example_invoice
      (loadOperations [example_operation])) = [example_operation, example_operation]
   \<and> \<not> distinct (map operation (findMatchesForInvoice example_D (MAX_DATE_DIFF_DAYS None)
      example_invoice (loadOperations [example_operation])))"
  by code_simp

text \<open>
  C2, as amended. No two candidates of the returned list share the key and the target
  label under which they were recorded: within one target an index entry (and any other
  entry with the same statement id and sequence) is reported at most once.
\<close>

theorem one_candidate_per_key_and_label:
  "distinct (map candidateKey (findMatchesForInvoice D maxDays invoice operations))"
  by (simp add: findMatchesForInvoice_def distinct_map_sortCandidates collect_keys_ok distinct_take
      flip: take_map)

text \<open>
  C10. The matcher is run on what \<open>loadOperations\<close> keeps of the index. Every candidate
  it returns comes from an index entry whose direction reads \<^verbatim>\<open>credit\<close> (compared after
  trimming and lower-casing, as the code does) and whose amount is not null; an entry whose
  direction is \<^verbatim>\<open>debit\<close> or null, or whose amount is null, is never reported. In an index
  written by the importer a direction is \<^verbatim>\<open>credit\<close>, \<^verbatim>\<open>debit\<close> or null, and then the
  direction of a reported operation is \<^verbatim>\<open>credit\<close> itself.
\<close>

theorem only_credits_are_reported:
  assumes "c \<in> set (findMatchesForInvoice D maxDays invoice (loadOperations index))"
  shows "(\<exists>e \<in> set index. toLowerCase (sanitize (direction e)) = ''credit'' \<and> amount e \<noteq> None
            \<and> operation c = e\<lparr>amount := Some (or_zero (amount e)),
                  bookingDate := or_null (js_or (bookingDate e) (valueDate e))\<rparr>)
         \<and> toLowerCase (sanitize (direction (operation c))) = ''credit''
         \<and> direction (operation c) \<noteq> Some ''debit'' \<and> direction (operation c) \<noteq> None
         \<and> amount (operation c) \<noteq> None
         \<and> (direction (operation c) \<in> {None, Some ''credit'', Some ''debit''}
            \<longrightarrow> direction (operation c) = Some ''credit'')"
proof -
  from assms have "operation c \<in> set (loadOperations index)"
    by (rule findMatches_operation)
  then obtain e where e: "e \<in> set index" "toLowerCase (sanitize (direction e)) = ''credit''"
      "amount e \<noteq> None"
      "operation c = e\<lparr>amount := Some (or_zero (amount e)),
                  bookingDate := or_null (js_or (bookingDate e) (valueDate e))\<rparr>"
    using loadOperations_members by blast
  then have d: "direction (operation c) = direction e" and a: "amount (operation c) \<noteq> None"
    by simp_all
  from e(2) d have "toLowerCase (sanitize (direction (operation c))) = ''credit''" by simp
  moreover from this not_credit_debit have "direction (operation c) \<noteq> Some ''debit''"
    by (cases "direction (operation c) = Some ''debit''") simp_all
  moreover from calculation(1) not_credit_null have "direction (operation c) \<noteq> None"
    by (cases "direction (operation c) = None") simp_all
  ultimately show ?thesis using e a by blast
qed

theorem only_credits_are_reported_witness:
  "hd (findMatchesForInvoice example_D 120 open_invoice
         (loadOperations [debit_operation, example_operation]))
     \<in> set (findMatchesForInvoice example_D 120 open_invoice
         (loadOperations [debit_operation, example_operation]))
   \<and> direction (operation (hd (findMatchesForInvoice example_D 120 open_invoice
         (loadOperations [debit_operation, example_operation])))) \<noteq> Some ''debit''
   \<and> amount (operation (hd (findMatchesForInvoice example_D 120 open_invoice
         (loadOperations [debit_operation, example_operation])))) \<noteq> None"
proof -
  have m: "hd (findMatchesForInvoice example_D 120 open_invoice
         (loadOperations [debit_operation, example_operation]))
     \<in> set (findMatchesForInvoice example_D 120 open_invoice
         (loadOperations [debit_operation, example_operation]))"
    by code_simp
  from only_credits_are_reported [OF m] m show ?thesis by simp
qed

text \<open>
  C9. The specification says that the matcher raises for an invoice without a usable
  amount. The code reads such an amount as 0 (\<^verbatim>\<open>parseNumber(invoice.amount) || 0\<close>), finds no
  target and returns the empty list.
\<close>

theorem missing_amount_raises_nothing:
  "parseNumber (inv_amount invoice_without_amount) = None
   \<and> invoiceTargets invoice_without_amount = []
   \<and> findMatchesForInvoice example_D (MAX_DATE_DIFF_DAYS None) invoice_without_amount
       (loadOperations [example_operation]) = []"
  by code_simp

text \<open>
  C9, as amended. For an invoice whose fields are strings, numbers or \<^verbatim>\<open>null\<close>: when no
  index entry qualifies for any target of the invoice (none matches a target's amount
  within the date window), the matcher returns the empty list. An invoice without a usable
  amount is not rejected: when its balance is not negative it has no target, and the
  matcher returns the empty list for it.
\<close>

theorem no_match_returns_empty_list:
  "((\<forall>tgt \<in> set (invoiceTargets invoice). \<forall>oper \<in> set operations.
         \<not> (amountMatches tgt oper \<and> \<not> days_gt (dayDistance D invoice oper) maxDays))
      \<longrightarrow> findMatchesForInvoice D maxDays invoice operations = [])
   \<and> (parseNumber (inv_amount invoice) = None \<and> 0 \<le> or_zero (parseNumber (inv_balance invoice))
      \<longrightarrow> invoiceTargets invoice = []
        \<and> findMatchesForInvoice D maxDays invoice operations = [])"
  by (auto simp: findMatchesForInvoice_def sortCandidates_def
      no_qualifying_no_candidates no_targets_no_candidates unusable_amount_no_targets)

theorem no_match_returns_empty_list_witness:
  "parseNumber (inv_amount invoice_without_amount) = None
   \<and> 0 \<le> or_zero (parseNumber (inv_balance invoice_without_amount))
   \<and> findMatchesForInvoice example_D 120 invoice_without_amount [example_operation] = []
   \<and> findMatchesForInvoice example_D 120 open_invoice [booked_day_121] = []"
proof -
  have h: "parseNumber (inv_amount invoice_without_amount) = None
   \<and> 0 \<le> or_zero (parseNumber (inv_balance invoice_without_amount))"
    by code_simp
  have g: "\<forall>tgt \<in> set (invoiceTargets open_invoice). \<forall>oper \<in> set [booked_day_121].
         \<not> (amountMatches tgt oper \<and> \<not> days_gt (dayDistance example_D open_invoice oper) 120)"
    by code_simp
  from h no_match_returns_empty_list [of invoice_without_amount "[example_operation]" example_D 120]
  have a: "findMatchesForInvoice example_D 120 invoice_without_amount [example_operation] = []"
    by blast
  from g no_match_returns_empty_list [of open_invoice "[booked_day_121]" example_D 120]
  have b: "findMatchesForInvoice example_D 120 open_invoice [booked_day_121] = []"
    by blast
  from h a b show ?thesis by simp
qed

section \<open>Facts about the importer's parsing functions\<close>

lemma show_nat_small: "n < 10 \<Longrightarrow> show_nat n = [''0123456789'' ! n]"
  by (subst show_nat.simps) simp

lemma show_nat_large:
  "\<not> n < 10 \<Longrightarrow> show_nat n = show_nat (n div 10) @ [''0123456789'' ! (n mod 10)]"
  by (subst show_nat.simps) simp

lemma digit_not_space: "is_digit c \<Longrightarrow> \<not> is_space c"
  by (auto simp: is_digit_def is_space_def)

lemma digit_not_dash: "is_digit c \<Longrightarrow> c \<noteq> CHR ''-'' \<and> c \<noteq> CHR ''+''"
  by (auto simp: is_digit_def)

lemma digits_no_dash: "list_all is_digit s \<Longrightarrow> CHR ''-'' \<notin> set s"
  using digit_not_dash by (auto simp: list_all_iff)

lemma split_on_first: "sep \<notin> set a \<Longrightarrow> split_on sep (a @ sep # rest) = a # split_on sep rest"
  by (induction a) auto

lemma parseInt_digits:
  assumes "s \<noteq> []" and "list_all is_digit s"
  shows "parseInt s = Some (int (digits_value s))"
proof -
  from assms obtain c cs where s: "s = c # cs" and c: "is_digit c" by (cases s) auto
  have 1: "dropWhile is_space s = s" using s c digit_not_space by simp
  have 2: "\<not> startsWith s ''-''" "\<not> startsWith s ''+''"
    using s c digit_not_dash by auto
  have 3: "takeWhile is_digit s = s" using assms(2) by (simp add: list_all_iff)
  show ?thesis using assms(1) by (simp add: parseInt_def 1 2 3 Let_def)
qed

lemma matchValueLine_parts:
  assumes "matchValueLine line = Some (day, month, yearMaybe, amountString, sign)"
  shows "line \<noteq> [] \<and> length day = 2 \<and> list_all is_digit day
       \<and> length month = 2 \<and> list_all is_digit month"
  using assms by (auto simp: matchValueLine_def Let_def split: if_splits)

lemma parseValueLine_valueDate:
  assumes "matchValueLine line = Some (day, month, yearMaybe, amountString, sign)"
  shows "v_valueDate (parseValueLine (Some line) bd cur) = inferValueDate day month yearMaybe bd"
  using assms matchValueLine_parts [OF assms]
  by (simp add: parseValueLine_def truthy_def template_def Let_def)

text \<open>
  The sign of a value line decides direction and sign of the amount together:
  \<open>sign_consistent\<close> says so for the value line, the amount and the direction of one
  operation.
\<close>

lemma startsWith_mem: "startsWith s [c] \<Longrightarrow> c \<in> set s"
  by (cases s) auto

lemma parseFloat_nonneg:
  assumes "CHR ''-'' \<notin> set s" and "parseFloat s = Some v"
  shows "0 \<le> v"
proof -
  have "\<not> startsWith (dropWhile is_space s) ''-''"
    using assms(1) startsWith_mem [of "dropWhile is_space s" "CHR ''-''"] set_dropWhileD by fastforce
  with assms(2) show ?thesis
    by (auto simp: parseFloat_def Let_def split: if_splits)
qed

lemma set_replace_first: "set (replace_first a b s) \<subseteq> insert b (set s)"
  by (induction s) auto

lemma parseEuropeanNumber_nonneg:
  assumes "CHR ''-'' \<notin> set raw"
  shows "0 \<le> parseEuropeanNumber raw"
proof (cases "raw = []")
  case True
  then show ?thesis by (simp add: parseEuropeanNumber_def)
next
  case False
  let ?n = "replace_first CHR '','' CHR ''.''
                 (filter (\<lambda>c. \<not> is_space c) (filter (\<lambda>c. c \<noteq> CHR ''.'') raw))"
  have "CHR ''-'' \<notin> set ?n"
    using assms set_replace_first [of "CHR '',''" "CHR ''.''"
        "filter (\<lambda>c. \<not> is_space c) (filter (\<lambda>c. c \<noteq> CHR ''.'') raw)"] by auto
  then have "\<And>v. parseFloat ?n = Some v \<Longrightarrow> 0 \<le> v"
    by (rule parseFloat_nonneg)
  then show ?thesis using False
    by (simp add: parseEuropeanNumber_def Let_def split: option.splits)
qed

lemma amount_char_no_dash: "is_amount_char c \<Longrightarrow> c \<noteq> CHR ''-''"
  by (auto simp: is_amount_char_def is_digit_def)

lemma matchValueLine_amount:
  assumes "matchValueLine line = Some (day, month, yearMaybe, amountString, sign)"
  shows "CHR ''-'' \<notin> set amountString \<and> (sign = ''+'' \<or> sign = ''-'')"
proof -
  from assms obtain r where "amountString = takeWhile is_amount_char r" and s: "sign = ''+'' \<or> sign = ''-''"
    by (auto simp: matchValueLine_def Let_def split: if_splits)
  then have "\<forall>c \<in> set amountString. is_amount_char c"
    by (auto dest: set_takeWhileD)
  with s show ?thesis using amount_char_no_dash by blast
qed

lemma suffix_drop: "\<exists>p. xs = p @ drop n xs"
  by (metis append_take_drop_id)

lemma suffix_dropWhile: "\<exists>p. xs = p @ dropWhile P xs"
  by (metis takeWhile_dropWhile_id)

lemma matchValueLine_sign_last:
  assumes "matchValueLine line = Some (day, month, yearMaybe, amountString, sign)"
  shows "line \<noteq> [] \<and> sign = [last line]"
proof -
  define r1 where "r1 = drop 2 line"
  define r2 where "r2 = drop 3 r1"
  define r3 where "r3 = (if startsWith r2 ''-'' \<and> length (take 4 (drop 1 r2)) = 4
                     \<and> list_all is_digit (take 4 (drop 1 r2)) then drop 5 r2 else r2)"
  define r4 where "r4 = dropWhile is_space r3"
  define r5 where "r5 = dropWhile is_amount_char r4"
  from assms have sg: "sign = dropWhile is_space r5" and ne: "sign = ''+'' \<or> sign = ''-''"
    by (auto simp: matchValueLine_def Let_def r1_def r2_def r3_def r4_def r5_def split: if_splits)
  obtain p1 where "line = p1 @ r1" using suffix_drop r1_def by blast
  moreover obtain p2 where "r1 = p2 @ r2" using suffix_drop r2_def by blast
  moreover obtain p3 where "r2 = p3 @ r3" using suffix_drop [of r2 5] r3_def by (metis append_Nil)
  moreover obtain p4 where "r3 = p4 @ r4" using suffix_dropWhile r4_def by blast
  moreover obtain p5 where "r4 = p5 @ r5" using suffix_dropWhile r5_def by blast
  moreover obtain p6 where "r5 = p6 @ sign" using suffix_dropWhile sg by blast
  ultimately have "line = (p1 @ p2 @ p3 @ p4 @ p5 @ p6) @ sign" by simp
  with ne show ?thesis by auto
qed

definition sign_consistent :: "string option \<Rightarrow> real option \<Rightarrow> string option \<Rightarrow> bool" where
  \<comment> \<open>arguments: the value line, the amount and the direction of an operation\<close>
  "sign_consistent vline amt dir =
     (case vline of
        None \<Rightarrow> amt = None \<and> dir = None
      | Some l \<Rightarrow>
          (case amt of
             None \<Rightarrow> dir = None
           | Some a \<Rightarrow> l \<noteq> [] \<and> (if last l = CHR ''-'' then dir = Some ''debit'' \<and> a \<le> 0
                                    else last l = CHR ''+'' \<and> dir = Some ''credit'' \<and> 0 \<le> a)))"

lemma parseValueLine_consistent:
  "sign_consistent line (v_amount (parseValueLine line bd cur)) (v_direction (parseValueLine line bd cur))"
proof (cases "truthy line")
  case False
  then show ?thesis
    by (auto simp: parseValueLine_def sign_consistent_def truthy_def split: option.splits)
next
  case True
  then obtain l where l: "line = Some l" "l \<noteq> []" by (auto simp: truthy_def split: option.splits)
  show ?thesis
  proof (cases "matchValueLine l")
    case None
    then show ?thesis using l True
      by (simp add: parseValueLine_def sign_consistent_def template_def)
  next
    case (Some m)
    then obtain day month yearMaybe amountString sign where
      m: "matchValueLine l = Some (day, month, yearMaybe, amountString, sign)"
      by (cases m) auto
    from matchValueLine_amount [OF m] have nn: "0 \<le> parseEuropeanNumber amountString"
      and sg: "sign = ''+'' \<or> sign = ''-''" by (simp_all add: parseEuropeanNumber_nonneg)
    from matchValueLine_sign_last [OF m] have la: "sign = [last l]" by simp
    show ?thesis using l True m nn sg la
      by (auto simp: parseValueLine_def sign_consistent_def template_def Let_def)
  qed
qed

lemma buildOperation_consistent:
  "sign_consistent (rawValueLine (buildOperation s t bd vl dls cur))
     (amount (buildOperation s t bd vl dls cur)) (direction (buildOperation s t bd vl dls cur))"
  using parseValueLine_consistent [of vl bd cur] by (simp add: buildOperation_def Let_def)

lemma operationLoop_consistent:
  "oper \<in> set (operationLoop bd cur ls) \<Longrightarrow> sign_consistent (rawValueLine oper) (amount oper) (direction oper)"
proof (induction bd cur ls rule: operationLoop.induct)
  case (1 bd cur)
  then show ?case by simp
next
  case (2 bd cur line rest)
  then show ?case
    by (auto simp: buildOperation_consistent split: if_splits option.splits)
qed

lemma extractOperations_directions:
  assumes "extractOperations ls meta = Inr ops" and "oper \<in> set ops"
  shows "direction oper \<in> {None, Some ''credit'', Some ''debit''}"
proof -
  from assms obtain bd cur rest where "oper \<in> set (operationLoop bd cur rest)"
    by (auto simp: extractOperations_def split: option.splits)
  then have "sign_consistent (rawValueLine oper) (amount oper) (direction oper)"
    by (rule operationLoop_consistent)
  then show ?thesis
    by (auto simp: sign_consistent_def split: option.splits if_splits)
qed

lemma parseStatement_directions:
  assumes "parseStatement now buf ctx = Inr st" and "oper \<in> set (s_operations st)"
  shows "direction oper \<in> {None, Some ''credit'', Some ''debit''}"
proof -
  from assms obtain ls meta where "extractOperations ls meta = Inr (s_operations st)"
    by (auto simp: parseStatement_def Let_def split: pdf_buffer.splits sum.splits)
  then show ?thesis using assms(2) by (rule extractOperations_directions)
qed

lemma indexEntries_directions:
  "e \<in> set (indexEntries st) \<Longrightarrow> \<exists>oper \<in> set (s_operations st). direction e = direction oper"
  by (auto simp: indexEntries_def)

text \<open>
  Documents that cannot be parsed, and what the loops over a batch do with them.
\<close>

definition trimmedLines :: "string \<Rightarrow> string list" where
  \<comment> \<open>the lines \<^verbatim>\<open>parseStatement\<close> hands to the parser\<close>
  "trimmedLines text = filter (\<lambda>line. line \<noteq> []) (map trim (split_lines text))"

definition MISSING_ANCHOR :: string where
  "MISSING_ANCHOR = ''Unable to locate account IBAN line in statement.''"

definition MISSING_HEADER :: string where
  "MISSING_HEADER = ''Unable to find the operations header in the statement.''"

definition zipFailure :: "string \<Rightarrow> zip_entry \<Rightarrow> string \<Rightarrow> failure" where
  \<comment> \<open>what the \<^verbatim>\<open>catch\<close> of \<^verbatim>\<open>processZipArchive\<close> pushes\<close>
  "zipFailure zipPath entry message =
     \<lparr>f_source = ''zip'', f_path = zipPath, f_entryName = Some (entry_name entry), f_error = message\<rparr>"

lemma split_blank_nonempty: "split_blank b piece s \<noteq> []"
  by (induction s arbitrary: b piece) auto

lemma parseAccountLine_Inr: "\<exists>r. parseAccountLine line = Inr r"
  by (simp add: parseAccountLine_def split_ws_def split_blank_nonempty Let_def)

lemma parseStatement_no_anchor:
  "findIndex isPotentialIbanLine (trimmedLines txt) = None \<Longrightarrow>
   parseStatement now (Text txt) ctx = Inl MISSING_ANCHOR"
  by (simp add: parseStatement_def extractStatementMeta_def trimmedLines_def MISSING_ANCHOR_def Let_def)

lemma extractStatementMeta_header:
  "extractStatementMeta ls = Inr meta \<Longrightarrow>
   operationsHeaderIndex meta = findIndex (\<lambda>line. startsWith line LABEL_OPERATIONS_HEADER) ls"
  by (auto simp: extractStatementMeta_def Let_def split: option.splits sum.splits)

lemma extractStatementMeta_Inl:
  assumes "extractStatementMeta ls = Inl message"
  shows "message = MISSING_ANCHOR"
proof (cases "findIndex isPotentialIbanLine ls")
  case None
  with assms show ?thesis by (simp add: extractStatementMeta_def MISSING_ANCHOR_def)
next
  case (Some i)
  obtain r where "parseAccountLine (ls ! i) = Inr r" using parseAccountLine_Inr by blast
  with Some assms show ?thesis
    by (cases r) (simp add: extractStatementMeta_def Let_def)
qed

lemma parseStatement_no_header:
  assumes "findIndex (\<lambda>line. startsWith line LABEL_OPERATIONS_HEADER) (trimmedLines txt) = None"
  shows "parseStatement now (Text txt) ctx = Inl MISSING_ANCHOR
       \<or> parseStatement now (Text txt) ctx = Inl MISSING_HEADER"
proof (cases "extractStatementMeta (trimmedLines txt)")
  case (Inl message)
  then show ?thesis using extractStatementMeta_Inl [OF Inl]
    by (simp add: parseStatement_def trimmedLines_def Let_def)
next
  case (Inr meta)
  with assms extractStatementMeta_header [OF Inr]
  have "extractOperations (trimmedLines txt) meta = Inl MISSING_HEADER"
    by (simp add: extractOperations_def MISSING_HEADER_def)
  with Inr show ?thesis
    by (simp add: parseStatement_def trimmedLines_def Let_def)
qed

lemma parse_error:
  assumes "findIndex isPotentialIbanLine (trimmedLines txt) = None
         \<or> findIndex (\<lambda>line. startsWith line LABEL_OPERATIONS_HEADER) (trimmedLines txt) = None"
  shows "\<exists>message. (message = MISSING_ANCHOR \<or> message = MISSING_HEADER)
           \<and> parseStatement now (Text txt) ctx = Inl message"
  using assms parseStatement_no_anchor [of "txt" "now" "ctx"] parseStatement_no_header [of "txt" "now" "ctx"]
  by auto

lemma processEntries_append:
  "processEntries clock opts zp (xs @ ys) files =
     (case processEntries clock opts zp xs files of
        (s1, f1, w1) \<Rightarrow>
          (case processEntries clock opts zp ys w1 of
             (s2, f2, w2) \<Rightarrow> (s1 @ s2, f1 @ f2, w2)))"
proof (induction xs arbitrary: files)
  case Nil
  then show ?case by (simp split: prod.splits)
next
  case (Cons x xs)
  show ?case
    by (simp add: Cons.IH Let_def split: prod.splits sum.splits)
qed

lemma processEntries_failed:
  assumes "\<not> isDirectory bad" and "endsWith (toLowerCase (entry_name bad)) ''.pdf''"
    and "parseStatement (clock \<lparr>source_type = ''zip'', originPath = zp, entryName = Some (entry_name bad)\<rparr>)
           (getData bad) \<lparr>source_type = ''zip'', originPath = zp, entryName = Some (entry_name bad)\<rparr>
         = Inl message"
  shows "processEntries clock opts zp (bad # rest) files =
     (case processEntries clock opts zp rest files of
        (s, f, w) \<Rightarrow> (s, zipFailure zp bad message # f, w))"
  using assms by (simp add: Let_def zipFailure_def split: prod.splits)

lemma processArchives_append:
  "processArchives clock opts (xs @ ys) files =
     (case processArchives clock opts xs files of
        (s1, f1, w1) \<Rightarrow>
          (case processArchives clock opts ys w1 of
             (s2, f2, w2) \<Rightarrow> (s1 @ s2, f1 @ f2, w2)))"
proof (induction xs arbitrary: files)
  case Nil
  then show ?case by (simp split: prod.splits)
next
  case (Cons x xs)
  show ?case
    by (simp add: Cons.IH split: prod.splits)
qed

lemma processEntries_with_failed:
  assumes "\<not> isDirectory bad" and "endsWith (toLowerCase (entry_name bad)) ''.pdf''"
    and "parseStatement (clock \<lparr>source_type = ''zip'', originPath = zp, entryName = Some (entry_name bad)\<rparr>)
           (getData bad) \<lparr>source_type = ''zip'', originPath = zp, entryName = Some (entry_name bad)\<rparr>
         = Inl message"
  shows "\<exists>s fa fb w.
           processEntries clock opts zp (pre @ post) files = (s, fa @ fb, w)
         \<and> processEntries clock opts zp (pre @ bad # post) files
             = (s, fa @ zipFailure zp bad message # fb, w)"
proof -
  obtain s1 f1 w1 where 1: "processEntries clock opts zp pre files = (s1, f1, w1)"
    by (cases "processEntries clock opts zp pre files") auto
  obtain s2 f2 w2 where 2: "processEntries clock opts zp post w1 = (s2, f2, w2)"
    by (cases "processEntries clock opts zp post w1") auto
  have 3: "processEntries clock opts zp (bad # post) w1 = (s2, zipFailure zp bad message # f2, w2)"
    using processEntries_failed [where clock = clock and zp = zp and bad = bad
        and message = message and opts = opts and rest = post and files = w1] assms 2
    by simp
  have "processEntries clock opts zp (pre @ post) files = (s1 @ s2, f1 @ f2, w2)"
    using 1 2 by (simp add: processEntries_append)
  moreover have "processEntries clock opts zp (pre @ bad # post) files
      = (s1 @ s2, f1 @ zipFailure zp bad message # f2, w2)"
    using 1 3 by (simp add: processEntries_append)
  ultimately show ?thesis by blast
qed

lemma processArchives_with_failed:
  assumes "processEntries clock opts zp (pre @ post) = good"
    and "\<And>files. \<exists>s fa fb w.
           processEntries clock opts zp (pre @ post) files = (s, fa @ fb, w)
         \<and> processEntries clock opts zp (pre @ bad # post) files = (s, fa @ fl # fb, w)"
  shows "\<exists>s fa fb w.
           processArchives clock opts (earlier @ (zp, pre @ post) # later) files = (s, fa @ fb, w)
         \<and> processArchives clock opts (earlier @ (zp, pre @ bad # post) # later) files
             = (s, fa @ fl # fb, w)"
proof -
  obtain s1 f1 w1 where 1: "processArchives clock opts earlier files = (s1, f1, w1)"
    by (cases "processArchives clock opts earlier files") auto
  from assms(2) [of w1] obtain s fa fb w where
    2: "processEntries clock opts zp (pre @ post) w1 = (s, fa @ fb, w)"
    and 3: "processEntries clock opts zp (pre @ bad # post) w1 = (s, fa @ fl # fb, w)"
    by blast
  obtain s3 f3 w3 where 4: "processArchives clock opts later w = (s3, f3, w3)"
    by (cases "processArchives clock opts later w") auto
  have "processArchives clock opts (earlier @ (zp, pre @ post) # later) files
      = (s1 @ s @ s3, (f1 @ fa) @ (fb @ f3), w3)"
    using 1 2 4 by (simp add: processArchives_append processZipArchive_def)
  moreover have "processArchives clock opts (earlier @ (zp, pre @ bad # post) # later) files
      = (s1 @ s @ s3, (f1 @ fa) @ fl # (fb @ f3), w3)"
    using 1 3 4 by (simp add: processArchives_append processZipArchive_def)
  ultimately show ?thesis by blast
qed

lemma exit_code_signals_failures:
  "exitCode (main clock index_time opts zips pdfs files)
     = (if r_failures (main clock index_time opts zips pdfs files) = [] then 0 else 1)"
  by (simp add: main_def split: prod.splits)

lemma processPdfs_append:
  "processPdfs clock opts (xs @ ys) files =
     (case processPdfs clock opts xs files of
        (s1, f1, w1) \<Rightarrow>
          (case processPdfs clock opts ys w1 of
             (s2, f2, w2) \<Rightarrow> (s1 @ s2, f1 @ f2, w2)))"
proof (induction xs arbitrary: files)
  case Nil
  then show ?case by (simp split: prod.splits)
next
  case (Cons x xs)
  show ?case
    by (simp add: Cons.IH split: prod.splits)
qed

definition pdfFailure :: "string \<Rightarrow> string \<Rightarrow> failure" where
  \<comment> \<open>what the \<^verbatim>\<open>catch\<close> of \<^verbatim>\<open>processSinglePdf\<close> pushes\<close>
  "pdfFailure pdfPath message =
     \<lparr>f_source = ''pdf'', f_path = pdfPath, f_entryName = None, f_error = message\<rparr>"

lemma parse_error_aborts_one_pdf:
  assumes "findIndex isPotentialIbanLine (trimmedLines txt) = None
         \<or> findIndex (\<lambda>line. startsWith line LABEL_OPERATIONS_HEADER) (trimmedLines txt) = None"
  shows "\<exists>message s fa fb w.
           (message = MISSING_ANCHOR \<or> message = MISSING_HEADER)
         \<and> processPdfs clock opts (pre @ (pdfPath, Text txt) # post) files
             = (s, fa @ pdfFailure pdfPath message # fb, w)
         \<and> processPdfs clock opts (pre @ post) files = (s, fa @ fb, w)"
proof -
  let ?ctx = "\<lparr>source_type = ''pdf'', originPath = pdfPath, entryName = None\<rparr>"
  from parse_error [OF assms, of "clock ?ctx" ?ctx] obtain message where
    m: "message = MISSING_ANCHOR \<or> message = MISSING_HEADER"
    and p: "parseStatement (clock ?ctx) (Text txt) ?ctx = Inl message"
    by auto
  obtain s1 f1 w1 where 1: "processPdfs clock opts pre files = (s1, f1, w1)"
    by (cases "processPdfs clock opts pre files") auto
  obtain s2 f2 w2 where 2: "processPdfs clock opts post w1 = (s2, f2, w2)"
    by (cases "processPdfs clock opts post w1") auto
  have 3: "processSinglePdf clock opts (pdfPath, Text txt) w1 = ([], [pdfFailure pdfPath message], w1)"
    using p by (simp add: processSinglePdf_def pdfFailure_def Let_def)
  have "processPdfs clock opts (pre @ (pdfPath, Text txt) # post) files
      = (s1 @ s2, f1 @ pdfFailure pdfPath message # f2, w2)"
    using 1 2 3 by (simp add: processPdfs_append)
  moreover have "processPdfs clock opts (pre @ post) files = (s1 @ s2, f1 @ f2, w2)"
    using 1 2 by (simp add: processPdfs_append)
  ultimately show ?thesis using m by blast
qed

text \<open>
  Two runs of the importer at different times: what they read from the clock ends up in
  \<^verbatim>\<open>generatedAt\<close> only, so the runs go through the same steps as long as the same paths
  exist (or overwriting is allowed).
\<close>

definition same_statement :: "'a statement_scheme \<Rightarrow> 'a statement_scheme \<Rightarrow> bool" where
  \<comment> \<open>equal in every field but \<^verbatim>\<open>generatedAt\<close>\<close>
  "same_statement a b = (a\<lparr>s_generatedAt := []\<rparr> = b\<lparr>s_generatedAt := []\<rparr>)"

definition same_presence :: "world \<Rightarrow> world \<Rightarrow> bool" where
  \<comment> \<open>the same paths exist\<close>
  "same_presence w1 w2 = (\<forall>p. (w1 p = None) = (w2 p = None))"

definition indexOperations :: "world \<Rightarrow> string \<Rightarrow> index_entry list option" where
  \<comment> \<open>the \<^verbatim>\<open>operations\<close> array of the index artifact under a directory, if there is one\<close>
  "indexOperations files dir =
     (case files (path_join dir ''operations-index.json'') of
        Some (IndexFile payload) \<Rightarrow> Some (index_operations payload)
      | _ \<Rightarrow> None)"

lemma same_statement_refl [simp]: "same_statement a a"
  by (simp add: same_statement_def)

lemma same_statement_fields:
  "same_statement a b \<Longrightarrow>
   s_statementId a = s_statementId b \<and> s_source a = s_source b \<and> s_account a = s_account b
   \<and> s_statementNumber a = s_statementNumber b \<and> s_statementYear a = s_statementYear b
   \<and> s_operations a = s_operations b"
  by (cases a, cases b) (simp add: same_statement_def)

lemma buildStatementId_clock:
  "truthy (entryName ctx) \<or> originPath ctx \<noteq> [] \<Longrightarrow>
   buildStatementId a meta ctx = buildStatementId b meta ctx"
  by (auto simp: buildStatementId_def)

lemma parseStatement_clock:
  assumes "truthy (entryName ctx) \<or> originPath ctx \<noteq> []"
  shows "(\<exists>message. parseStatement n1 buf ctx = Inl message \<and> parseStatement n2 buf ctx = Inl message)
       \<or> (\<exists>a b. parseStatement n1 buf ctx = Inr a \<and> parseStatement n2 buf ctx = Inr b
              \<and> same_statement a b)"
  using buildStatementId_clock [OF assms, of "millis n1" _ "millis n2"]
  by (auto simp: parseStatement_def Let_def same_statement_def split: pdf_buffer.splits sum.splits)

definition targetPath :: "'a statement_scheme \<Rightarrow> string \<Rightarrow> string" where
  \<comment> \<open>the path \<^verbatim>\<open>writeStatementJson\<close> writes a statement to\<close>
  "targetPath st dir =
     path_join dir
       ((if s_statementId st \<noteq> [] then s_statementId st
         else buildFileSafeName (template
                (js_or (entryName (s_source st)) (Some (originPath (s_source st)))))) @ ''.json'')"

lemma writeStatementJson_eq:
  "writeStatementJson st dir ov files =
     (if \<not> ov \<and> files (targetPath st dir) \<noteq> None
      then Inl (''File already exists at '' @ targetPath st dir @ ''. Use --overwrite to replace it.'')
      else Inr (targetPath st dir, files(targetPath st dir \<mapsto> StatementFile st)))"
  by (simp add: writeStatementJson_def targetPath_def Let_def)

lemma same_presence_update:
  "same_presence w1 w2 \<Longrightarrow> same_presence (w1(p \<mapsto> x)) (w2(p \<mapsto> y))"
  by (simp add: same_presence_def)

lemma writeStatementJson_same:
  assumes "same_statement a b" and "ov \<or> same_presence w1 w2"
  shows "(\<exists>message. writeStatementJson a dir ov w1 = Inl message
              \<and> writeStatementJson b dir ov w2 = Inl message)
       \<or> (\<exists>p v1 v2. writeStatementJson a dir ov w1 = Inr (p, v1)
              \<and> writeStatementJson b dir ov w2 = Inr (p, v2) \<and> (ov \<or> same_presence v1 v2))"
proof -
  have t: "targetPath a dir = targetPath b dir"
    using same_statement_fields [OF assms(1)] by (simp add: targetPath_def)
  show ?thesis
  proof (cases ov)
    case True
    then show ?thesis by (simp add: writeStatementJson_eq t)
  next
    case False
    with assms(2) have p: "same_presence w1 w2" by simp
    then have "(w1 (targetPath b dir) = None) = (w2 (targetPath b dir) = None)"
      by (simp add: same_presence_def)
    then show ?thesis using False p
      by (auto simp: writeStatementJson_eq t same_presence_update)
  qed
qed

lemma pdf_name_nonempty: "endsWith (toLowerCase n) ''.pdf'' \<Longrightarrow> n \<noteq> []"
  by (auto simp: endsWith_def toLowerCase_def)

lemma processEntries_same:
  assumes "overwrite opts \<or> same_presence w1 w2"
  shows "\<exists>s1 s2 f v1 v2.
           processEntries c1 opts zp es w1 = (s1, f, v1)
         \<and> processEntries c2 opts zp es w2 = (s2, f, v2)
         \<and> list_all2 same_statement s1 s2 \<and> (overwrite opts \<or> same_presence v1 v2)"
  using assms
proof (induction es arbitrary: w1 w2)
  case Nil
  then show ?case by simp
next
  case (Cons e es)
  let ?ctx = "\<lparr>source_type = ''zip'', originPath = zp, entryName = Some (entry_name e)\<rparr>"
  show ?case
  proof (cases "isDirectory e \<or> \<not> endsWith (toLowerCase (entry_name e)) ''.pdf''")
    case True
    with Cons.IH [OF Cons.prems] show ?thesis by auto
  next
    case False
    then have "truthy (entryName ?ctx) \<or> originPath ?ctx \<noteq> []"
      using pdf_name_nonempty by (simp add: truthy_def)
    from parseStatement_clock [OF this, of "c1 ?ctx" "getData e" "c2 ?ctx"]
    consider (unparsed) message where "parseStatement (c1 ?ctx) (getData e) ?ctx = Inl message"
        "parseStatement (c2 ?ctx) (getData e) ?ctx = Inl message"
      | (parsed) a b where "parseStatement (c1 ?ctx) (getData e) ?ctx = Inr a"
        "parseStatement (c2 ?ctx) (getData e) ?ctx = Inr b" "same_statement a b"
      by blast
    then show ?thesis
    proof cases
      case unparsed
      from Cons.IH [OF Cons.prems] obtain s1 s2 f v1 v2 where
        "processEntries c1 opts zp es w1 = (s1, f, v1)" "processEntries c2 opts zp es w2 = (s2, f, v2)"
        "list_all2 same_statement s1 s2" "overwrite opts \<or> same_presence v1 v2" by blast
      with unparsed False show ?thesis by (simp add: Let_def)
    next
      case parsed
      from writeStatementJson_same [OF parsed(3) Cons.prems, of "outputDir opts"]
      consider (refused) message where
          "writeStatementJson a (outputDir opts) (overwrite opts) w1 = Inl message"
          "writeStatementJson b (outputDir opts) (overwrite opts) w2 = Inl message"
        | (written) path u1 u2 where
          "writeStatementJson a (outputDir opts) (overwrite opts) w1 = Inr (path, u1)"
          "writeStatementJson b (outputDir opts) (overwrite opts) w2 = Inr (path, u2)"
          "overwrite opts \<or> same_presence u1 u2"
        by blast
      then show ?thesis
      proof cases
        case refused
        from Cons.IH [OF Cons.prems] obtain s1 s2 f v1 v2 where
          "processEntries c1 opts zp es w1 = (s1, f, v1)" "processEntries c2 opts zp es w2 = (s2, f, v2)"
          "list_all2 same_statement s1 s2" "overwrite opts \<or> same_presence v1 v2" by blast
        with parsed refused False show ?thesis by (simp add: Let_def)
      next
        case written
        from Cons.IH [OF written(3)] obtain s1 s2 f v1 v2 where
          "processEntries c1 opts zp es u1 = (s1, f, v1)" "processEntries c2 opts zp es u2 = (s2, f, v2)"
          "list_all2 same_statement s1 s2" "overwrite opts \<or> same_presence v1 v2" by blast
        moreover have "same_statement (statement.extend a (processed_statement.fields path))
            (statement.extend b (processed_statement.fields path))"
          using parsed(3) by (cases a, cases b)
            (simp add: same_statement_def statement.extend_def processed_statement.fields_def)
        ultimately show ?thesis using parsed written False by (simp add: Let_def)
      qed
    qed
  qed
qed

lemma processSinglePdf_same:
  assumes "overwrite opts \<or> same_presence w1 w2" and "fst pdf \<noteq> []"
  shows "\<exists>s1 s2 f v1 v2.
           processSinglePdf c1 opts pdf w1 = (s1, f, v1)
         \<and> processSinglePdf c2 opts pdf w2 = (s2, f, v2)
         \<and> list_all2 same_statement s1 s2 \<and> (overwrite opts \<or> same_presence v1 v2)"
proof -
  let ?ctx = "\<lparr>source_type = ''pdf'', originPath = fst pdf, entryName = None\<rparr>"
  have "truthy (entryName ?ctx) \<or> originPath ?ctx \<noteq> []" using assms(2) by simp
  from parseStatement_clock [OF this, of "c1 ?ctx" "snd pdf" "c2 ?ctx"]
  consider (unparsed) message where "parseStatement (c1 ?ctx) (snd pdf) ?ctx = Inl message"
      "parseStatement (c2 ?ctx) (snd pdf) ?ctx = Inl message"
    | (parsed) a b where "parseStatement (c1 ?ctx) (snd pdf) ?ctx = Inr a"
      "parseStatement (c2 ?ctx) (snd pdf) ?ctx = Inr b" "same_statement a b"
    by blast
  then show ?thesis
  proof cases
    case unparsed
    with assms(1) show ?thesis by (simp add: processSinglePdf_def Let_def)
  next
    case parsed
    from writeStatementJson_same [OF parsed(3) assms(1), of "outputDir opts"]
    consider (refused) message where
        "writeStatementJson a (outputDir opts) (overwrite opts) w1 = Inl message"
        "writeStatementJson b (outputDir opts) (overwrite opts) w2 = Inl message"
      | (written) path u1 u2 where
        "writeStatementJson a (outputDir opts) (overwrite opts) w1 = Inr (path, u1)"
        "writeStatementJson b (outputDir opts) (overwrite opts) w2 = Inr (path, u2)"
        "overwrite opts \<or> same_presence u1 u2"
      by blast
    then show ?thesis
    proof cases
      case refused
      with parsed assms(1) show ?thesis by (simp add: processSinglePdf_def Let_def)
    next
      case written
      have "same_statement (statement.extend a (processed_statement.fields path))
          (statement.extend b (processed_statement.fields path))"
        using parsed(3) by (cases a, cases b)
          (simp add: same_statement_def statement.extend_def processed_statement.fields_def)
      with parsed written show ?thesis by (simp add: processSinglePdf_def Let_def)
    qed
  qed
qed

lemma processPdfs_same:
  assumes "overwrite opts \<or> same_presence w1 w2" and "\<forall>pdf \<in> set pdfs. fst pdf \<noteq> []"
  shows "\<exists>s1 s2 f v1 v2.
           processPdfs c1 opts pdfs w1 = (s1, f, v1)
         \<and> processPdfs c2 opts pdfs w2 = (s2, f, v2)
         \<and> list_all2 same_statement s1 s2 \<and> (overwrite opts \<or> same_presence v1 v2)"
  using assms
proof (induction pdfs arbitrary: w1 w2)
  case Nil
  then show ?case by simp
next
  case (Cons pdf pdfs)
  from processSinglePdf_same [OF Cons.prems(1), of pdf c1 c2] Cons.prems(2)
  obtain s1 s2 f u1 u2 where 1: "processSinglePdf c1 opts pdf w1 = (s1, f, u1)"
      "processSinglePdf c2 opts pdf w2 = (s2, f, u2)" "list_all2 same_statement s1 s2"
      "overwrite opts \<or> same_presence u1 u2" by auto
  from Cons.IH [OF 1(4)] Cons.prems(2)
  obtain t1 t2 g v1 v2 where 2: "processPdfs c1 opts pdfs u1 = (t1, g, v1)"
      "processPdfs c2 opts pdfs u2 = (t2, g, v2)" "list_all2 same_statement t1 t2"
      "overwrite opts \<or> same_presence v1 v2" by auto
  from 1 2 show ?case by (simp add: list_all2_appendI)
qed

lemma processArchives_same:
  assumes "overwrite opts \<or> same_presence w1 w2"
  shows "\<exists>s1 s2 f v1 v2.
           processArchives c1 opts zips w1 = (s1, f, v1)
         \<and> processArchives c2 opts zips w2 = (s2, f, v2)
         \<and> list_all2 same_statement s1 s2 \<and> (overwrite opts \<or> same_presence v1 v2)"
  using assms
proof (induction zips arbitrary: w1 w2)
  case Nil
  then show ?case by simp
next
  case (Cons zip zips)
  from processEntries_same [OF Cons.prems, of c1 "fst zip" "snd zip" c2]
  obtain s1 s2 f u1 u2 where 1: "processZipArchive c1 opts zip w1 = (s1, f, u1)"
      "processZipArchive c2 opts zip w2 = (s2, f, u2)" "list_all2 same_statement s1 s2"
      "overwrite opts \<or> same_presence u1 u2" by (auto simp: processZipArchive_def)
  from Cons.IH [OF 1(4)]
  obtain t1 t2 g v1 v2 where 2: "processArchives c1 opts zips u1 = (t1, g, v1)"
      "processArchives c2 opts zips u2 = (t2, g, v2)" "list_all2 same_statement t1 t2"
      "overwrite opts \<or> same_presence v1 v2" by auto
  from 1 2 show ?case by (simp add: list_all2_appendI)
qed

lemma processEntries_unchanged:
  "processEntries c opts zp es files = ([], f, v) \<Longrightarrow> v = files"
  by (induction es arbitrary: f) (auto simp: Let_def split: if_splits sum.splits prod.splits)

lemma processArchives_unchanged:
  "processArchives c opts zips files = ([], f, v) \<Longrightarrow> v = files"
proof (induction zips arbitrary: files f)
  case Nil
  then show ?case by simp
next
  case (Cons zip zips)
  then show ?case
    by (auto simp: processZipArchive_def split: prod.splits dest!: processEntries_unchanged)
qed

lemma processSinglePdf_unchanged:
  "processSinglePdf c opts pdf files = ([], f, v) \<Longrightarrow> v = files"
  by (auto simp: processSinglePdf_def Let_def split: sum.splits prod.splits)

lemma processPdfs_unchanged:
  "processPdfs c opts pdfs files = ([], f, v) \<Longrightarrow> v = files"
proof (induction pdfs arbitrary: files f)
  case Nil
  then show ?case by simp
next
  case (Cons pdf pdfs)
  then show ?case
    by (auto split: prod.splits dest!: processSinglePdf_unchanged)
qed

lemma indexEntries_same: "same_statement a b \<Longrightarrow> indexEntries a = indexEntries b"
  by (cases a, cases b) (simp add: same_statement_def indexEntries_def)

lemma indexEntries_same_list:
  "list_all2 same_statement xs ys \<Longrightarrow> concat (map indexEntries xs) = concat (map indexEntries ys)"
  by (induction rule: list_all2_induct) (simp_all add: indexEntries_same)

lemma same_presence_refl [simp]: "same_presence w w"
  by (simp add: same_presence_def)

lemma main_same:
  assumes "overwrite opts \<or> same_presence w1 w2" and "\<forall>pdf \<in> set pdfs. fst pdf \<noteq> []"
  shows "list_all2 same_statement (r_statements (main c1 t1 opts zips pdfs w1))
           (r_statements (main c2 t2 opts zips pdfs w2))
       \<and> r_failures (main c1 t1 opts zips pdfs w1) = r_failures (main c2 t2 opts zips pdfs w2)"
proof (cases "zips = [] \<and> pdfs = []")
  case True
  then show ?thesis by (simp add: main_def)
next
  case False
  from processArchives_same [OF assms(1), of c1 zips c2]
  obtain s1 s2 f u1 u2 where 1: "processArchives c1 opts zips w1 = (s1, f, u1)"
      "processArchives c2 opts zips w2 = (s2, f, u2)" "list_all2 same_statement s1 s2"
      "overwrite opts \<or> same_presence u1 u2" by blast
  from processPdfs_same [OF 1(4) assms(2), of c1 c2]
  obtain t1' t2' g v1 v2 where 2: "processPdfs c1 opts pdfs u1 = (t1', g, v1)"
      "processPdfs c2 opts pdfs u2 = (t2', g, v2)" "list_all2 same_statement t1' t2'" by blast
  from False 1 2 show ?thesis by (auto simp: main_def list_all2_appendI)
qed

lemma main_index_emitted:
  "r_statements (main c t opts zips pdfs files) \<noteq> [] \<Longrightarrow>
   indexOperations (r_files (main c t opts zips pdfs files)) (outputDir opts)
     = Some (concat (map indexEntries (r_statements (main c t opts zips pdfs files))))"
  by (auto simp: main_def indexOperations_def emitAggregatedIndex_def split: prod.splits if_splits)

lemma main_unchanged:
  assumes "r_statements (main c t opts zips pdfs files) = []"
  shows "r_files (main c t opts zips pdfs files) = files"
proof (cases "zips = [] \<and> pdfs = []")
  case True
  then show ?thesis by (simp add: main_def)
next
  case False
  obtain s1 f1 u where a: "processArchives c opts zips files = (s1, f1, u)"
    by (cases "processArchives c opts zips files") auto
  obtain s2 f2 v where b: "processPdfs c opts pdfs u = (s2, f2, v)"
    by (cases "processPdfs c opts pdfs u") auto
  from assms False a b have e: "s1 = []" "s2 = []" by (simp_all add: main_def)
  with a b have "u = files" "v = u"
    using processArchives_unchanged processPdfs_unchanged by blast+
  with False a b e show ?thesis by (simp add: main_def)
qed

lemma main_index_same:
  assumes "overwrite opts \<or> same_presence w1 w2" and "\<forall>pdf \<in> set pdfs. fst pdf \<noteq> []"
    and "indexOperations w1 (outputDir opts) = indexOperations w2 (outputDir opts)"
  shows "indexOperations (r_files (main c1 t1 opts zips pdfs w1)) (outputDir opts)
       = indexOperations (r_files (main c2 t2 opts zips pdfs w2)) (outputDir opts)"
proof -
  from main_same [OF assms(1,2), of c1 t1 zips c2 t2]
  have rel: "list_all2 same_statement (r_statements (main c1 t1 opts zips pdfs w1))
           (r_statements (main c2 t2 opts zips pdfs w2))" by simp
  show ?thesis
  proof (cases "r_statements (main c1 t1 opts zips pdfs w1) = []")
    case True
    with rel have "r_statements (main c2 t2 opts zips pdfs w2) = []" by simp
    with True assms(3) show ?thesis by (simp add: main_unchanged)
  next
    case False
    with rel have "r_statements (main c2 t2 opts zips pdfs w2) \<noteq> []" by auto
    with False rel show ?thesis
      by (simp add: main_index_emitted indexEntries_same_list)
  qed
qed

section \<open>Claims about the importer\<close>

text \<open>
  C4. A value line without a year takes its year from the booking date: for a booking date
  \<open>y-m-d\<close> (as \<open>toIsoDate\<close> writes it, four digits and two digits) and a value-line
  month \<open>mv\<close>, the inferred date starts with the booking year plus one when
  \<open>mv - m < -6\<close>, minus one when \<open>mv - m > 6\<close>, and the booking year itself otherwise.
  A year written on the value line is used as it stands. The last part says the same of
  the value date \<open>parseValueLine\<close> gives to a line on which the pattern found no year.
\<close>

theorem inferred_value_year:
  assumes "length y = 4" and "list_all is_digit y" and "length m = 2" and "list_all is_digit m"
    and "length mv = 2" and "list_all is_digit mv"
  shows "inferValueDate dv mv None (Some (y @ ''-'' @ m @ ''-'' @ d)) =
           Some (show_number (Some (int (digits_value y) +
                   (if int (digits_value mv) - int (digits_value m) < - 6 then 1
                    else if int (digits_value mv) - int (digits_value m) > 6 then - 1 else 0)))
                 @ ''-'' @ mv @ ''-'' @ dv)
         \<and> (yv \<noteq> [] \<longrightarrow> inferValueDate dv mv (Some yv) bd = Some (yv @ ''-'' @ mv @ ''-'' @ dv))
         \<and> (matchValueLine line = Some (dv, mv, None, amountString, sign) \<longrightarrow>
              v_valueDate (parseValueLine (Some line) (Some (y @ ''-'' @ m @ ''-'' @ d)) cur) =
                Some (show_number (Some (int (digits_value y) +
                   (if int (digits_value mv) - int (digits_value m) < - 6 then 1
                    else if int (digits_value mv) - int (digits_value m) > 6 then - 1 else 0)))
                 @ ''-'' @ mv @ ''-'' @ dv))"
proof (intro conjI impI)
  have ne: "y \<noteq> []" "m \<noteq> []" "mv \<noteq> []" using assms by auto
  have sp: "split_on CHR ''-'' (y @ ''-'' @ m @ ''-'' @ d) = y # m # split_on CHR ''-'' d"
    using split_on_first [of "CHR ''-''" y "m @ ''-'' @ d"] split_on_first [of "CHR ''-''" m d]
      digits_no_dash assms(2,4) by simp
  have py: "parseInt y = Some (int (digits_value y))" using ne assms by (simp add: parseInt_digits)
  have pm: "parseInt m = Some (int (digits_value m))" using ne assms by (simp add: parseInt_digits)
  have pv: "parseInt mv = Some (int (digits_value mv))" using ne assms by (simp add: parseInt_digits)
  have tr: "truthy (Some (y @ ''-'' @ m @ ''-'' @ d))" "\<not> truthy None"
    by (simp_all add: truthy_def)
  show inferred: "inferValueDate dv mv None (Some (y @ ''-'' @ m @ ''-'' @ d)) =
           Some (show_number (Some (int (digits_value y) +
                   (if int (digits_value mv) - int (digits_value m) < - 6 then 1
                    else if int (digits_value mv) - int (digits_value m) > 6 then - 1 else 0)))
                 @ ''-'' @ mv @ ''-'' @ dv)"
    unfolding inferValueDate_def
    by (simp only: tr if_True if_False template_def option.case sp list.map py pm pv)
       (simp add: nth_opt_def Let_def)
  assume "matchValueLine line = Some (dv, mv, None, amountString, sign)"
  from parseValueLine_valueDate [OF this] inferred
  show "v_valueDate (parseValueLine (Some line) (Some (y @ ''-'' @ m @ ''-'' @ d)) cur) =
                Some (show_number (Some (int (digits_value y) +
                   (if int (digits_value mv) - int (digits_value m) < - 6 then 1
                    else if int (digits_value mv) - int (digits_value m) > 6 then - 1 else 0)))
                 @ ''-'' @ mv @ ''-'' @ dv)"
    by simp
next
  assume "yv \<noteq> []"
  then show "inferValueDate dv mv (Some yv) bd = Some (yv @ ''-'' @ mv @ ''-'' @ dv)"
    by (simp add: inferValueDate_def truthy_def template_def)
qed

theorem inferred_value_year_witness:
  "inferValueDate ''04'' ''01'' None (Some ''2024-12-15'') = Some ''2025-01-04''
   \<and> inferValueDate ''28'' ''12'' None (Some ''2024-01-03'') = Some ''2023-12-28''
   \<and> inferValueDate ''04'' ''04'' None (Some ''2024-04-01'') = Some ''2024-04-04''
   \<and> inferValueDate ''04'' ''04'' (Some ''2019'') (Some ''2024-04-01'') = Some ''2019-04-04''
   \<and> v_valueDate (parseValueLine (Some ''04-01 12,50 +'') (Some ''2024-12-15'') (Some ''EUR''))
       = Some ''2025-01-04''"
proof -
  have y: "length ''2024'' = 4" "list_all is_digit ''2024''" by code_simp+
  have m12: "length ''12'' = 2" "list_all is_digit ''12''" by code_simp+
  have m01: "length ''01'' = 2" "list_all is_digit ''01''" by code_simp+
  have m04: "length ''04'' = 2" "list_all is_digit ''04''" by code_simp+
  have e: "show_number (Some (int (digits_value ''2024'') +
                   (if int (digits_value ''01'') - int (digits_value ''12'') < - 6 then 1
                    else if int (digits_value ''01'') - int (digits_value ''12'') > 6 then - 1 else 0))) = ''2025''"
    "show_number (Some (int (digits_value ''2024'') +
                   (if int (digits_value ''12'') - int (digits_value ''01'') < - 6 then 1
                    else if int (digits_value ''12'') - int (digits_value ''01'') > 6 then - 1 else 0))) = ''2023''"
    "show_number (Some (int (digits_value ''2024'') +
                   (if int (digits_value ''04'') - int (digits_value ''04'') < - 6 then 1
                    else if int (digits_value ''04'') - int (digits_value ''04'') > 6 then - 1 else 0))) = ''2024''"
    by (simp_all add: show_number_def digits_value_def show_nat_small show_nat_large)
  have n: "''2019'' \<noteq> []" by simp
  have v: "matchValueLine ''04-01 12,50 +'' = Some (''04'', ''01'', None, ''12,50'', ''+'')"
    by code_simp
  note a = inferred_value_year [OF y m12 m01, of "''04''" "''15''" "''2019''" "Some ''2024-04-01''",
      THEN conjunct1]
  note b = inferred_value_year [OF y m01 m12, of "''28''" "''03''" "''2019''" "Some ''2024-04-01''",
      THEN conjunct1]
  note c = inferred_value_year [OF y m04 m04, of "''04''" "''01''" "''2019''" "Some ''2024-04-01''",
      THEN conjunct1]
  note d = inferred_value_year [OF y m04 m04, of "''04''" "''01''" "''2019''" "Some ''2024-04-01''",
      THEN conjunct2, THEN conjunct1, rule_format, OF n]
  note f = inferred_value_year [OF y m12 m01, of "''04''" "''15''" "''2019''" "Some ''2024-04-01''"
      "''04-01 12,50 +''" "''12,50''" "''+''" "Some ''EUR''",
      THEN conjunct2, THEN conjunct2, rule_format, OF v]
  show ?thesis
    using a b c d f unfolding e by (simp only: append.simps)
qed

text \<open>
  C3. The specification states that \<open>direction\<close> is \<^verbatim>\<open>credit\<close> exactly when the amount is
  positive. The importer takes the direction from the sign character of the value line
  alone, so a value line of 0,00 with a plus sign gives a credit whose amount is 0.
\<close>

theorem zero_amount_is_credit:
  "extractStatementMeta zero_amount_lines = Inr zero_amount_meta
   \<and> extractOperations zero_amount_lines zero_amount_meta = Inr [zero_amount_operation, fee_operation]
   \<and> direction zero_amount_operation = Some ''credit''
   \<and> amount zero_amount_operation = Some 0"
  by code_simp

text \<open>
  C3, as amended. For every operation the importer extracts, the direction is \<^verbatim>\<open>credit\<close>
  exactly when its value line ends in a plus sign and \<^verbatim>\<open>debit\<close> exactly when it ends in a
  minus sign; it is null exactly when the amount is null. A positive amount is always a
  credit and a negative amount always a debit; a credit has an amount of at least 0 and a
  debit an amount of at most 0.
\<close>

theorem direction_follows_sign:
  assumes "extractOperations ls meta = Inr ops" and "oper \<in> set ops"
  shows "(direction oper = Some ''credit'' \<longleftrightarrow>
            amount oper \<noteq> None \<and> (\<exists>l. rawValueLine oper = Some l \<and> l \<noteq> [] \<and> last l = CHR ''+''))
       \<and> (direction oper = Some ''debit'' \<longleftrightarrow>
            amount oper \<noteq> None \<and> (\<exists>l. rawValueLine oper = Some l \<and> l \<noteq> [] \<and> last l = CHR ''-''))
       \<and> (direction oper = None \<longleftrightarrow> amount oper = None)
       \<and> (\<forall>a. amount oper = Some a \<longrightarrow>
              (0 < a \<longrightarrow> direction oper = Some ''credit'')
            \<and> (a < 0 \<longrightarrow> direction oper = Some ''debit'')
            \<and> (direction oper = Some ''credit'' \<longrightarrow> 0 \<le> a)
            \<and> (direction oper = Some ''debit'' \<longrightarrow> a \<le> 0))"
proof -
  from assms obtain bd cur rest where "oper \<in> set (operationLoop bd cur rest)"
    by (auto simp: extractOperations_def split: option.splits)
  then have c: "sign_consistent (rawValueLine oper) (amount oper) (direction oper)"
    by (rule operationLoop_consistent)
  show ?thesis
  proof (cases "rawValueLine oper")
    case None
    with c show ?thesis by (simp add: sign_consistent_def)
  next
    case (Some l)
    show ?thesis
    proof (cases "amount oper")
      case None
      with c Some show ?thesis by (simp add: sign_consistent_def)
    next
      case (Some a)
      with c \<open>rawValueLine oper = Some l\<close> show ?thesis
        by (auto simp: sign_consistent_def split: if_splits)
    qed
  qed
qed

theorem direction_follows_sign_witness:
  "extractOperations zero_amount_lines zero_amount_meta = Inr [zero_amount_operation, fee_operation]
   \<and> fee_operation \<in> set [zero_amount_operation, fee_operation]
   \<and> direction fee_operation = Some ''debit'' \<and> amount fee_operation = Some (- (25 / 2))
   \<and> rawValueLine fee_operation = Some ''06-04-2024 12,50 -''
   \<and> direction zero_amount_operation = Some ''credit'' \<and> 0 \<le> the (amount zero_amount_operation)"
proof -
  have e: "extractOperations zero_amount_lines zero_amount_meta = Inr [zero_amount_operation, fee_operation]"
    by code_simp
  have m: "fee_operation \<in> set [zero_amount_operation, fee_operation]"
    "zero_amount_operation \<in> set [zero_amount_operation, fee_operation]" by simp_all
  have v: "amount fee_operation = Some (- (25 / 2))" "rawValueLine fee_operation = Some ''06-04-2024 12,50 -''"
    "amount zero_amount_operation = Some 0" "direction zero_amount_operation = Some ''credit''"
    by (simp_all add: fee_operation_def zero_amount_operation_def)
  from direction_follows_sign [OF e m(1)] v have "direction fee_operation = Some ''debit''"
    by simp
  moreover from direction_follows_sign [OF e m(2)] v have "0 \<le> the (amount zero_amount_operation)"
    by simp
  ultimately show ?thesis using e m v by simp
qed

text \<open>
  C7. A document of an archive whose text has no IBAN line, or no operations header, makes
  \<open>parseStatement\<close> throw. The throw is caught in the loop over the archive: the run
  records one failure for that document, with the message of the error, and is otherwise
  the run without the document: the same statements are processed and written, the same
  other failures recorded, in the same order. The exit code of the run is 1. (For every
  run the exit code is 1 exactly when a failure was recorded:
  \<open>exit_code_signals_failures\<close>; the loop over standalone PDF files confines the error
  in the same way: \<open>parse_error_aborts_one_pdf\<close>.)
\<close>

theorem parse_error_aborts_one_document:
  assumes "\<not> isDirectory bad" and "endsWith (toLowerCase (entry_name bad)) ''.pdf''"
    and "getData bad = Text txt"
    and "findIndex isPotentialIbanLine (trimmedLines txt) = None
         \<or> findIndex (\<lambda>line. startsWith line LABEL_OPERATIONS_HEADER) (trimmedLines txt) = None"
  shows "\<exists>message fa fb.
           (message = MISSING_ANCHOR \<or> message = MISSING_HEADER)
         \<and> r_failures (main clock index_time opts (earlier @ (zp, pre @ bad # post) # later) pdfs files)
             = fa @ zipFailure zp bad message # fb
         \<and> r_failures (main clock index_time opts (earlier @ (zp, pre @ post) # later) pdfs files)
             = fa @ fb
         \<and> r_statements (main clock index_time opts (earlier @ (zp, pre @ bad # post) # later) pdfs files)
             = r_statements (main clock index_time opts (earlier @ (zp, pre @ post) # later) pdfs files)
         \<and> r_files (main clock index_time opts (earlier @ (zp, pre @ bad # post) # later) pdfs files)
             = r_files (main clock index_time opts (earlier @ (zp, pre @ post) # later) pdfs files)
         \<and> exitCode (main clock index_time opts (earlier @ (zp, pre @ bad # post) # later) pdfs files) = 1"
proof -
  let ?ctx = "\<lparr>source_type = ''zip'', originPath = zp, entryName = Some (entry_name bad)\<rparr>"
  from parse_error [OF assms(4), of "clock ?ctx" ?ctx] assms(3) obtain message where
    m: "message = MISSING_ANCHOR \<or> message = MISSING_HEADER"
    and p: "parseStatement (clock ?ctx) (getData bad) ?ctx = Inl message"
    by auto
  have "\<And>files. \<exists>s fa fb w.
           processEntries clock opts zp (pre @ post) files = (s, fa @ fb, w)
         \<and> processEntries clock opts zp (pre @ bad # post) files
             = (s, fa @ zipFailure zp bad message # fb, w)"
    using processEntries_with_failed [where clock = clock and zp = zp and bad = bad
        and message = message and opts = opts and pre = pre and post = post] assms(1,2) p
    by blast
  from processArchives_with_failed [OF refl this, of earlier later files]
  obtain s fa fb w where
    g: "processArchives clock opts (earlier @ (zp, pre @ post) # later) files = (s, fa @ fb, w)"
    and b: "processArchives clock opts (earlier @ (zp, pre @ bad # post) # later) files
             = (s, fa @ zipFailure zp bad message # fb, w)"
    by blast
  obtain s' f' w' where q: "processPdfs clock opts pdfs w = (s', f', w')"
    by (cases "processPdfs clock opts pdfs w") auto
  have "r_failures (main clock index_time opts (earlier @ (zp, pre @ bad # post) # later) pdfs files)
      = fa @ zipFailure zp bad message # (fb @ f')"
    using b q by (simp add: main_def)
  moreover have "r_failures (main clock index_time opts (earlier @ (zp, pre @ post) # later) pdfs files)
      = fa @ (fb @ f')"
    using g q by (simp add: main_def)
  moreover have "r_statements (main clock index_time opts (earlier @ (zp, pre @ bad # post) # later) pdfs files)
      = r_statements (main clock index_time opts (earlier @ (zp, pre @ post) # later) pdfs files)"
    using g b q by (simp add: main_def)
  moreover have "r_files (main clock index_time opts (earlier @ (zp, pre @ bad # post) # later) pdfs files)
      = r_files (main clock index_time opts (earlier @ (zp, pre @ post) # later) pdfs files)"
    using g b q by (simp add: main_def)
  moreover have "exitCode (main clock index_time opts (earlier @ (zp, pre @ bad # post) # later) pdfs files) = 1"
    using b q by (simp add: main_def)
  ultimately show ?thesis using m by blast
qed

theorem parse_error_aborts_one_document_witness:
  "r_failures (main example_clock ''2024-05-01T10:00:01.000Z'' example_options
       [(''bank.zip'', [good_entry, unparseable_entry, later_entry])] [] Map.empty)
     = [zipFailure ''bank.zip'' unparseable_entry MISSING_ANCHOR]
   \<and> map s_statementId (r_statements (main example_clock ''2024-05-01T10:00:01.000Z'' example_options
       [(''bank.zip'', [good_entry, unparseable_entry, later_entry])] [] Map.empty))
     = [''april'', ''may'']
   \<and> exitCode (main example_clock ''2024-05-01T10:00:01.000Z'' example_options
       [(''bank.zip'', [good_entry, unparseable_entry, later_entry])] [] Map.empty) = 1"
proof -
  have h: "\<not> isDirectory unparseable_entry"
    "endsWith (toLowerCase (entry_name unparseable_entry)) ''.pdf''"
    "getData unparseable_entry = Text (''Dear customer'' @ [CHR 0x0A] @ ''your card expires soon'')"
    "findIndex isPotentialIbanLine
        (trimmedLines (''Dear customer'' @ [CHR 0x0A] @ ''your card expires soon'')) = None
     \<or> findIndex (\<lambda>line. startsWith line LABEL_OPERATIONS_HEADER)
        (trimmedLines (''Dear customer'' @ [CHR 0x0A] @ ''your card expires soon'')) = None"
    by code_simp+
  from parse_error_aborts_one_document [where earlier = "[]" and later = "[]"
      and pre = "[good_entry]" and post = "[later_entry]" and zp = "''bank.zip''"
      and clock = example_clock and opts = example_options and pdfs = "[]" and files = Map.empty
      and index_time = "''2024-05-01T10:00:01.000Z''", OF h]
  have e: "exitCode (main example_clock ''2024-05-01T10:00:01.000Z'' example_options
       [(''bank.zip'', [good_entry, unparseable_entry, later_entry])] [] Map.empty) = 1"
    by auto
  have f: "r_failures (main example_clock ''2024-05-01T10:00:01.000Z'' example_options
       [(''bank.zip'', [good_entry, unparseable_entry, later_entry])] [] Map.empty)
     = [zipFailure ''bank.zip'' unparseable_entry MISSING_ANCHOR]"
    by code_simp
  have s: "map s_statementId (r_statements (main example_clock ''2024-05-01T10:00:01.000Z'' example_options
       [(''bank.zip'', [good_entry, unparseable_entry, later_entry])] [] Map.empty))
     = [''april'', ''may'']"
    by code_simp
  from e f s show ?thesis by simp
qed

text \<open>
  C6. Two runs of the importer over the same documents, with the same options and
  starting from the same files, at different times: the \<^verbatim>\<open>operations\<close> array of the index
  artifact is the same after both (\<open>indexOperations\<close> is that array), the statements
  parsed are the same but for their \<^verbatim>\<open>generatedAt\<close>, and the failures are the same. With
  overwriting allowed, a second run over what the first run left rebuilds an index with
  the same \<^verbatim>\<open>operations\<close>. The index artifact has the two fields \<^verbatim>\<open>generatedAt\<close> and
  \<^verbatim>\<open>operations\<close>, so \<^verbatim>\<open>generatedAt\<close> is all that can differ. Standalone PDF files have a
  path that is not empty (they were found on disk); for documents inside an archive the
  entry name ends in \<^verbatim>\<open>.pdf\<close>, so that a statement id never falls back to the clock.
\<close>

theorem index_rebuild_is_deterministic:
  assumes "\<forall>pdf \<in> set pdfs. fst pdf \<noteq> []"
  shows "indexOperations (r_files (main clockA timeA opts zips pdfs files)) (outputDir opts)
           = indexOperations (r_files (main clockB timeB opts zips pdfs files)) (outputDir opts)
       \<and> list_all2 same_statement (r_statements (main clockA timeA opts zips pdfs files))
            (r_statements (main clockB timeB opts zips pdfs files))
       \<and> r_failures (main clockA timeA opts zips pdfs files)
           = r_failures (main clockB timeB opts zips pdfs files)
       \<and> (overwrite opts \<longrightarrow>
            indexOperations (r_files (main clockB timeB opts zips pdfs
                (r_files (main clockA timeA opts zips pdfs files)))) (outputDir opts)
              = indexOperations (r_files (main clockA timeA opts zips pdfs files)) (outputDir opts))"
proof (intro conjI impI)
  show "indexOperations (r_files (main clockA timeA opts zips pdfs files)) (outputDir opts)
           = indexOperations (r_files (main clockB timeB opts zips pdfs files)) (outputDir opts)"
    using assms by (intro main_index_same) simp_all
  show "list_all2 same_statement (r_statements (main clockA timeA opts zips pdfs files))
            (r_statements (main clockB timeB opts zips pdfs files))"
    using main_same [OF _ assms, of opts files files] by simp
  show "r_failures (main clockA timeA opts zips pdfs files)
           = r_failures (main clockB timeB opts zips pdfs files)"
    using main_same [OF _ assms, of opts files files] by simp
next
  assume ov: "overwrite opts"
  let ?A = "main clockA timeA opts zips pdfs files"
  let ?B = "main clockB timeB opts zips pdfs (r_files ?A)"
  from ov main_same [OF _ assms, of opts "r_files ?A" files clockB timeB zips clockA timeA]
  have rel: "list_all2 same_statement (r_statements ?B) (r_statements ?A)" by simp
  show "indexOperations (r_files ?B) (outputDir opts) = indexOperations (r_files ?A) (outputDir opts)"
  proof (cases "r_statements ?A = []")
    case True
    with rel have "r_statements ?B = []" by simp
    then show ?thesis by (simp add: main_unchanged)
  next
    case False
    with rel have "r_statements ?B \<noteq> []" by auto
    with False rel show ?thesis
      by (simp add: main_index_emitted indexEntries_same_list)
  qed
qed

theorem index_rebuild_is_deterministic_witness:
  "map fst example_pdfs = [''statements/march.pdf'']
   \<and> indexOperations (r_files (main example_clock ''2024-05-01T10:00:01.000Z'' overwrite_options
          example_zips example_pdfs Map.empty)) (outputDir overwrite_options)
     = indexOperations (r_files (main later_clock ''2024-06-15T08:30:01.000Z'' overwrite_options
          example_zips example_pdfs Map.empty)) (outputDir overwrite_options)
   \<and> indexOperations (r_files (main later_clock ''2024-06-15T08:30:01.000Z'' overwrite_options
          example_zips example_pdfs
          (r_files (main example_clock ''2024-05-01T10:00:01.000Z'' overwrite_options
             example_zips example_pdfs Map.empty)))) (outputDir overwrite_options)
     = indexOperations (r_files (main example_clock ''2024-05-01T10:00:01.000Z'' overwrite_options
          example_zips example_pdfs Map.empty)) (outputDir overwrite_options)
   \<and> map_option (map statementId) (indexOperations (r_files (main example_clock
          ''2024-05-01T10:00:01.000Z'' overwrite_options example_zips example_pdfs Map.empty))
          (outputDir overwrite_options))
     = Some [Some ''april'', Some ''april'', Some ''march'', Some ''march'']"
proof -
  have h: "\<forall>pdf \<in> set example_pdfs. fst pdf \<noteq> []"
    by (simp add: example_pdfs_def)
  have o: "overwrite overwrite_options"
    by (simp add: overwrite_options_def)
  have p: "map fst example_pdfs = [''statements/march.pdf'']"
    by (simp add: example_pdfs_def)
  have v: "map_option (map statementId) (indexOperations (r_files (main example_clock
          ''2024-05-01T10:00:01.000Z'' overwrite_options example_zips example_pdfs Map.empty))
          (outputDir overwrite_options))
     = Some [Some ''april'', Some ''april'', Some ''march'', Some ''march'']"
    by code_simp
  from index_rebuild_is_deterministic [OF h, of example_clock "''2024-05-01T10:00:01.000Z''"
      overwrite_options example_zips Map.empty later_clock "''2024-06-15T08:30:01.000Z''"] o p v
  show ?thesis by simp
qed

end
